theory Spec2Isabelle
  imports Main "HOL-Library.Sublist"
begin

section \<open>JavaScript values and strings\<close>

text \<open>
  The fields of \<^verbatim>\<open>Captcha\<close> and the API key are declared \<^verbatim>\<open>string\<close>, but the
  declaration is not enforced at run time: the destructuring
  \<^verbatim>\<open>const [, text] = res.split('|', 2)\<close> yields \<^verbatim>\<open>undefined\<close> when the array has a
  single element, and the constructor itself tests \<^verbatim>\<open>typeof key !== 'string'\<close>.
  A value is therefore \<^verbatim>\<open>undefined\<close>, a number or a string.
\<close>

datatype jsval = Undefined | Num int | Str string

datatype error = Error string | TypeError

fun is_string :: "jsval \<Rightarrow> bool" where
  "is_string (Str s) = True"
| "is_string v = False"

text \<open>The operand of \<^verbatim>\<open>!\<close>: \<^verbatim>\<open>undefined\<close>, \<^verbatim>\<open>0\<close> and \<^verbatim>\<open>''\<close> are falsy.\<close>

fun falsy :: "jsval \<Rightarrow> bool" where
  "falsy Undefined = True"
| "falsy (Num n) = (n = 0)"
| "falsy (Str s) = (s = [])"

text \<open>
  \<^verbatim>\<open>s.split(c)\<close> for a separator of one character: the fields between the separators,
  \<^verbatim>\<open>''.split('|')\<close> being \<^verbatim>\<open>['']\<close>.
\<close>

fun split_on :: "char \<Rightarrow> string \<Rightarrow> string list" where
  "split_on c [] = [[]]"
| "split_on c (x # xs) =
     (if x = c then [] # split_on c xs
      else (case split_on c xs of
              [] \<Rightarrow> [[x]]
            | f # fs \<Rightarrow> (x # f) # fs))"

text \<open>\<^verbatim>\<open>s.split(c, limit)\<close> keeps the first \<^verbatim>\<open>limit\<close> fields.\<close>

definition split_limit :: "char \<Rightarrow> string \<Rightarrow> nat \<Rightarrow> string list" where
  "split_limit c s limit = take limit (split_on c s)"

text \<open>Reading index \<^verbatim>\<open>i\<close> of an array of strings: \<^verbatim>\<open>undefined\<close> out of range.\<close>

definition element :: "string list \<Rightarrow> nat \<Rightarrow> jsval" where
  "element xs i = (if i < length xs then Str (xs ! i) else Undefined)"

text \<open>\<^verbatim>\<open>s.includes(p)\<close>.\<close>

fun includes_str :: "string \<Rightarrow> string \<Rightarrow> bool" where
  "includes_str [] p = (p = [])"
| "includes_str (x # xs) p = (prefix p (x # xs) \<or> includes_str xs p)"

section \<open>Captcha\<close>

record Captcha =
  id_c :: jsval
  text_c :: jsval
  apiResponse :: string

definition new_Captcha :: Captcha where
  "new_Captcha = \<lparr>id_c = Str [], text_c = Str [], apiResponse = []\<rparr>"

subsection \<open>The two regular expressions\<close>

text \<open>
  \<^verbatim>\<open>/\d+/\<close> and \<^verbatim>\<open>/x=([0-9]+),y=([0-9]+)/\<close> are sequences of two kinds of atoms: a
  literal character, and one or more decimal digits (\<^verbatim>\<open>\d\<close> without the unicode flag is
  \<^verbatim>\<open>[0-9]\<close>).
\<close>

datatype atom = Lit char | Digits

definition is_digit :: "char \<Rightarrow> bool" where
  "is_digit c = (c \<in> set ''0123456789'')"

definition rx_digits :: "atom list" where
  "rx_digits = [Digits]"

definition rx_coordinates :: "atom list" where
  "rx_coordinates =
     [Lit CHR ''x'', Lit CHR ''='', Digits, Lit CHR '','', Lit CHR ''y'', Lit CHR ''='', Digits]"

fun first_some :: "'a option list \<Rightarrow> 'a option" where
  "first_some [] = None"
| "first_some (None # xs) = first_some xs"
| "first_some (Some x # xs) = Some x"

text \<open>
  The backtracking matcher, anchored at the start of the text: the digit groups matched
  and the text left after the match. The quantifier \<^verbatim>\<open>+\<close> is greedy: it first takes all
  the digits there are and gives them back one at a time, down to one, until the rest of
  the pattern matches.
\<close>

fun rx_at :: "atom list \<Rightarrow> string \<Rightarrow> (string list \<times> string) option" where
  "rx_at [] s = Some ([], s)"
| "rx_at (Lit c # p) s =
     (case s of
        [] \<Rightarrow> None
      | x # t \<Rightarrow> if x = c then rx_at p t else None)"
| "rx_at (Digits # p) s =
     first_some
       (map (\<lambda>n. case rx_at p (drop n s) of
                    None \<Rightarrow> None
                  | Some (groups, r) \<Rightarrow> Some (take n s # groups, r))
            (rev [1..<Suc (length (takeWhile is_digit s))]))"

text \<open>
  \<^verbatim>\<open>regex.exec(text)\<close> without the global flag: the groups of the leftmost match, or
  \<^verbatim>\<open>null\<close>.
\<close>

fun exec :: "atom list \<Rightarrow> string \<Rightarrow> string list option" where
  "exec p [] = map_option fst (rx_at p [])"
| "exec p (c # t) =
     (case rx_at p (c # t) of
        Some (groups, r) \<Rightarrow> Some groups
      | None \<Rightarrow> exec p t)"

text \<open>
  The matches that \<^verbatim>\<open>text.match(regex)\<close> collects under the global flag, each with its
  groups: the leftmost match from the current position on, then on from the end of that
  match (one character further after an empty match).
\<close>

function match_all :: "atom list \<Rightarrow> string \<Rightarrow> (string \<times> string list) list" where
  "match_all p s =
     (case rx_at p s of
        None \<Rightarrow> (case s of [] \<Rightarrow> [] | c # t \<Rightarrow> match_all p t)
      | Some (groups, r) \<Rightarrow>
          if length r < length s
          then (take (length s - length r) s, groups) # match_all p r
          else ([], groups) # (case s of [] \<Rightarrow> [] | c # t \<Rightarrow> match_all p t))"
  by pat_completeness auto
termination
  by (relation "measure (\<lambda>(p, s). length s)") auto

declare match_all.simps [simp del]

text \<open>\<^verbatim>\<open>text.match(regex)\<close>: the matched strings, \<^verbatim>\<open>null\<close> when there is none.\<close>

definition match_g :: "atom list \<Rightarrow> string \<Rightarrow> string list option" where
  "match_g p s = (case match_all p s of [] \<Rightarrow> None | m # ms \<Rightarrow> Some (map fst (m # ms)))"

text \<open>
  The built-in \<^verbatim>\<open>Number\<close> is a parameter of the two accessors: what it returns is a
  double, which is no part of this development. On a string of digits it is the double
  nearest to the decimal value, hence that value itself below \<open>2\<^sup>5\<^sup>3\<close>; \<open>decimal\<close> is the
  conversion in the worked examples, which stay far below.
\<close>

definition digit_value :: "char \<Rightarrow> nat" where
  "digit_value c = of_char c - 48"

definition decimal :: "string \<Rightarrow> nat" where
  "decimal s = foldl (\<lambda>n c. 10 * n + digit_value c) 0 s"

text \<open>\<^verbatim>\<open>s.replace(pat, rep)\<close> for a string pattern: the first occurrence is replaced.\<close>

fun replace_first :: "string \<Rightarrow> string \<Rightarrow> string \<Rightarrow> string" where
  "replace_first pat rep [] = (if pat = [] then rep else [])"
| "replace_first pat rep (c # t) =
     (if prefix pat (c # t) then rep @ drop (length pat) (c # t)
      else c # replace_first pat rep t)"

subsection \<open>\<^verbatim>\<open>indexes\<close> and \<^verbatim>\<open>coordinates\<close>\<close>

text \<open>Calling \<^verbatim>\<open>replace\<close> or \<^verbatim>\<open>match\<close> on a text that is not a string is a TypeError.\<close>

definition indexes :: "(string \<Rightarrow> 'n) \<Rightarrow> Captcha \<Rightarrow> error + 'n list" where
  "indexes Number c =
     (case text_c c of
        Str s \<Rightarrow>
          (case match_g rx_digits (replace_first ''click:'' [] s) of
             Some matches \<Rightarrow> Inr (map Number matches)
           | None \<Rightarrow> Inr [])
      | _ \<Rightarrow> Inl TypeError)"

text \<open>The pattern has two groups, so \<^verbatim>\<open>match[1]\<close> and \<^verbatim>\<open>match[2]\<close> are strings.\<close>

definition coordinateParser :: "(string \<Rightarrow> 'n) \<Rightarrow> string \<Rightarrow> 'n list" where
  "coordinateParser Number txt =
     (case exec rx_coordinates txt of
        Some (g1 # g2 # gs) \<Rightarrow> [Number g1, Number g2]
      | _ \<Rightarrow> [])"

definition coordinates :: "(string \<Rightarrow> 'n) \<Rightarrow> Captcha \<Rightarrow> error + 'n list list" where
  "coordinates Number c =
     (case text_c c of
        Str s \<Rightarrow>
          (case match_g rx_coordinates s of
             Some matches \<Rightarrow> Inr (map (coordinateParser Number) matches)
           | None \<Rightarrow> Inr [])
      | _ \<Rightarrow> Inl TypeError)"

subsection \<open>What the two accessors are to return, in the words of the specification\<close>

text \<open>
  The text \<open>t\<close> begins with an occurrence of \<^verbatim>\<open>x=<digits>,y=<digits>\<close>: the two digit
  groups, each as long as the digits go.
\<close>

definition xy_prefix :: "string \<Rightarrow> (string \<times> string) option" where
  "xy_prefix t =
     (let dx = takeWhile is_digit (drop 2 t);
          u = drop (2 + length dx) t;
          dy = takeWhile is_digit (drop 3 u)
      in if take 2 t = ''x='' \<and> dx \<noteq> [] \<and> take 3 u = '',y='' \<and> dy \<noteq> []
         then Some (dx, dy) else None)"

text \<open>One pair for the occurrence at each position of the text that has one, in order.\<close>

definition coordinates_spec :: "(string \<Rightarrow> 'n) \<Rightarrow> string \<Rightarrow> 'n list list" where
  "coordinates_spec Number s =
     concat (map (\<lambda>i. case xy_prefix (drop i s) of
                         None \<Rightarrow> []
                       | Some (dx, dy) \<Rightarrow> [[Number dx, Number dy]])
                 [0..<length s])"

text \<open>
  A maximal run of digits starts at each position that holds a digit and is not preceded
  by one; the run is the digits from there on.
\<close>

definition digit_runs :: "string \<Rightarrow> string list" where
  "digit_runs s =
     map (\<lambda>i. takeWhile is_digit (drop i s))
         (filter (\<lambda>i. is_digit (s ! i) \<and> (i = 0 \<or> \<not> is_digit (s ! (i - 1)))) [0..<length s])"

text \<open>Removing one leading prefix, where the text has it.\<close>

definition strip_leading :: "string \<Rightarrow> string \<Rightarrow> string" where
  "strip_leading pre s = (if prefix pre s then drop (length pre) s else s)"

text \<open>
  The runs that start in \<open>t\<close>, given whether the character before \<open>t\<close> is a digit: the
  recursion behind \<open>digit_runs\<close>.
\<close>

fun runs_after :: "bool \<Rightarrow> string \<Rightarrow> string list" where
  "runs_after b [] = []"
| "runs_after b (c # t) =
     (if is_digit c \<and> \<not> b then [takeWhile is_digit (c # t)] else []) @ runs_after (is_digit c) t"


section \<open>The client, its surroundings and its effects\<close>

record TwoCaptchaClient =
  key :: jsval
  timeout :: int
  polling :: int
  throwErrors :: bool

text \<open>The optional second argument of the constructor.\<close>

record params =
  timeout_p :: "int option"
  polling_p :: "int option"
  throwErrors_p :: "bool option"

text \<open>The source of an image, as \<^verbatim>\<open>decode\<close> receives it.\<close>

record image_options =
  base64 :: "string option"
  buffer :: "string option"
  path :: "string option"
  url :: "string option"

text \<open>
  What the client observes of the outside: the error table \<^verbatim>\<open>constants.errors\<close> (the file
  \<^verbatim>\<open>constants.js\<close> is not among the sources, so the table is a parameter; a lookup gives
  the message when the property is a string), the successive readings of
  \<^verbatim>\<open>Date.now()\<close>, the replies of the HTTP transport to the successive requests (an
  exception of the transport or the body), and the loading of image data.
\<close>

record env =
  errors :: "string \<rightharpoonup> string"
  clock :: "nat \<Rightarrow> int"
  transport :: "nat \<Rightarrow> error + string"
  toBase64 :: "string \<Rightarrow> string"
  readFile :: "string \<Rightarrow> error + string"
  openDataURL :: "string \<Rightarrow> error + string"

datatype event = Warn string | Sleep int | Now int | Http string string

text \<open>
  The state threaded through the calls: how many clock readings and requests were made,
  and the trace of what was done (\<^verbatim>\<open>console.warn\<close>, \<^verbatim>\<open>_sleep\<close>, \<^verbatim>\<open>Date.now()\<close> with
  the value read, a request with its action and method). The payload of a request goes to the transport,
  whose reply is the next entry of \<open>transport\<close> whatever was sent.
\<close>

record state =
  reads :: nat
  sent :: nat
  trace :: "event list"

definition Date_now :: "env \<Rightarrow> state \<Rightarrow> int \<times> state" where
  "Date_now E st =
     (clock E (reads st),
      st\<lparr>reads := Suc (reads st), trace := trace st @ [Now (clock E (reads st))]\<rparr>)"

definition sleep :: "int \<Rightarrow> state \<Rightarrow> state" where
  "sleep ms st = st\<lparr>trace := trace st @ [Sleep ms]\<rparr>"

subsection \<open>\<^verbatim>\<open>_throwError\<close>\<close>

definition throwError :: "TwoCaptchaClient \<Rightarrow> string \<Rightarrow> state \<Rightarrow> (error + bool) \<times> state" where
  "throwError cl message st =
     (if message = ''Your captcha is not solved yet.'' then (Inr False, st)
      else if throwErrors cl then (Inl (Error message), st)
      else (Inr False, st\<lparr>trace := trace st @ [Warn message]\<rparr>))"

subsection \<open>The constructor\<close>

definition new_TwoCaptchaClient ::
  "jsval \<Rightarrow> params \<Rightarrow> state \<Rightarrow> (error + TwoCaptchaClient) \<times> state" where
  "new_TwoCaptchaClient k p st =
     (let this = \<lparr>key = k,
                  timeout = (case timeout_p p of None \<Rightarrow> 60000 | Some t \<Rightarrow> t),
                  polling = (case polling_p p of None \<Rightarrow> 5000 | Some t \<Rightarrow> t),
                  throwErrors = (case throwErrors_p p of None \<Rightarrow> False | Some b \<Rightarrow> b)\<rparr>
      in if \<not> is_string k then
           (case throwError this ''2Captcha key must be a string'' st of
              (Inl e, st') \<Rightarrow> (Inl e, st')
            | (Inr _, st') \<Rightarrow> (Inr this, st'))
         else (Inr this, st))"

text \<open>The call \<^verbatim>\<open>new TwoCaptchaClient(key)\<close>: the second argument is left out.\<close>

definition no_params :: params where
  "no_params = \<lparr>timeout_p = None, polling_p = None, throwErrors_p = None\<rparr>"

subsection \<open>\<^verbatim>\<open>_validateResponse\<close>\<close>

definition validateResponse ::
  "env \<Rightarrow> TwoCaptchaClient \<Rightarrow> string \<Rightarrow> state \<Rightarrow> (error + bool) \<times> state" where
  "validateResponse E cl body st =
     (let message =
        (case errors E body of
           Some e \<Rightarrow>
             if e \<noteq> [] then Some e
             else if body = [] \<or> includes_str body ''ERROR'' then Some (''Unknown 2Captcha error: '' @ body)
             else None
         | None \<Rightarrow>
             if body = [] \<or> includes_str body ''ERROR'' then Some (''Unknown 2Captcha error: '' @ body)
             else None)
      in case message of
           None \<Rightarrow> (Inr True, st)
         | Some m \<Rightarrow>
             (case throwError cl m st of
                (Inl e, st') \<Rightarrow> (Inl e, st')
              | (Inr _, st') \<Rightarrow> (Inr False, st')))"

subsection \<open>\<^verbatim>\<open>_request\<close>, \<^verbatim>\<open>captcha\<close>, \<^verbatim>\<open>_upload\<close>, \<^verbatim>\<open>_loadCaptcha\<close>\<close>

definition request ::
  "env \<Rightarrow> TwoCaptchaClient \<Rightarrow> string \<Rightarrow> string \<Rightarrow> state \<Rightarrow> (error + string) \<times> state" where
  "request E cl action method st =
     (let st1 = st\<lparr>sent := Suc (sent st), trace := trace st @ [Http action method]\<rparr>
      in case transport E (sent st) of
           Inl e \<Rightarrow> (Inl e, st1)
         | Inr req \<Rightarrow>
             (case validateResponse E cl req st1 of
                (Inl e, st2) \<Rightarrow> (Inl e, st2)
              | (Inr _, st2) \<Rightarrow> (Inr req, st2)))"

definition captcha ::
  "env \<Rightarrow> TwoCaptchaClient \<Rightarrow> jsval \<Rightarrow> state \<Rightarrow> (error + Captcha) \<times> state" where
  "captcha E cl captchaId st =
     (case request E cl ''res'' ''get'' st of
        (Inl e, st') \<Rightarrow> (Inl e, st')
      | (Inr res, st') \<Rightarrow>
          (let decodedCaptcha = new_Captcha\<lparr>id_c := captchaId, apiResponse := res\<rparr>
           in (Inr (decodedCaptcha\<lparr>text_c := element (split_limit CHR ''|'' res 2) 1\<rparr>), st')))"

definition upload :: "env \<Rightarrow> TwoCaptchaClient \<Rightarrow> state \<Rightarrow> (error + Captcha) \<times> state" where
  "upload E cl st =
     (case request E cl ''in'' ''post'' st of
        (Inl e, st1) \<Rightarrow> (Inl e, st1)
      | (Inr res, st1) \<Rightarrow>
          (case validateResponse E cl res st1 of
             (Inl e, st2) \<Rightarrow> (Inl e, st2)
           | (Inr _, st2) \<Rightarrow>
               (Inr (new_Captcha\<lparr>id_c := element (split_limit CHR ''|'' res 2) 1\<rparr>), st2)))"

fun nonempty :: "string option \<Rightarrow> bool" where
  "nonempty None = False"
| "nonempty (Some s) = (s \<noteq> [])"

definition loadCaptcha ::
  "env \<Rightarrow> TwoCaptchaClient \<Rightarrow> image_options \<Rightarrow> state \<Rightarrow> (error + string) \<times> state" where
  "loadCaptcha E cl options st =
     (if nonempty (base64 options) then (Inr (the (base64 options)), st)
      else if buffer options \<noteq> None then (Inr (toBase64 E (the (buffer options))), st)
      else if nonempty (path options) then
        (case readFile E (the (path options)) of
           Inl e \<Rightarrow> (Inl e, st)
         | Inr fileBinary \<Rightarrow> (Inr (toBase64 E fileBinary), st))
      else if nonempty (url options) then
        (case openDataURL E (the (url options)) of
           Inl e \<Rightarrow> (Inl e, st)
         | Inr img \<Rightarrow> (Inr (toBase64 E img), st))
      else
        (case throwError cl ''No image data received'' st of
           (Inl e, st') \<Rightarrow> (Inl e, st')
         | (Inr _, st') \<Rightarrow> (Inr [], st')))"

subsection \<open>The poll loop and the four \<^verbatim>\<open>decode\<close> methods\<close>

text \<open>
  The four methods end in the same loop, which differs only in the interval it sleeps:
  \<^verbatim>\<open>while (decodedCaptcha.text === '') { await _sleep(interval);
  if (Date.now() - startedAt > this.timeout) { this._throwError('Captcha timeout');
  return decodedCaptcha; } decodedCaptcha = await this.captcha(decodedCaptcha.id); }
  return decodedCaptcha;\<close>
  Nothing bounds the number of rounds but the clock, so the loop is a partial function:
  \<open>None\<close> is a run that never returns.
\<close>

partial_function (option) poll ::
  "env \<Rightarrow> TwoCaptchaClient \<Rightarrow> int \<Rightarrow> int \<Rightarrow> Captcha \<Rightarrow> state \<Rightarrow>
     ((error + Captcha) \<times> state) option" where
  "poll E cl interval startedAt decodedCaptcha st =
     (if text_c decodedCaptcha = Str [] then
        (case Date_now E (sleep interval st) of
           (now, st1) \<Rightarrow>
             if now - startedAt > timeout cl then
               (case throwError cl ''Captcha timeout'' st1 of
                  (Inl e, st2) \<Rightarrow> Some (Inl e, st2)
                | (Inr _, st2) \<Rightarrow> Some (Inr decodedCaptcha, st2))
             else
               (case captcha E cl (id_c decodedCaptcha) st1 of
                  (Inl e, st2) \<Rightarrow> Some (Inl e, st2)
                | (Inr c, st2) \<Rightarrow> poll E cl interval startedAt c st2))
      else Some (Inr decodedCaptcha, st))"

declare poll.simps [code]

definition decode ::
  "env \<Rightarrow> TwoCaptchaClient \<Rightarrow> image_options \<Rightarrow> state \<Rightarrow>
     ((error + Captcha) \<times> state) option" where
  "decode E cl options st =
     (case Date_now E st of
        (startedAt, st1) \<Rightarrow>
          (case (if \<not> is_string (key cl)
                 then throwError cl ''2Captcha key must be a string'' st1
                 else (Inr False, st1)) of
             (Inl e, st2) \<Rightarrow> Some (Inl e, st2)
           | (Inr _, st2) \<Rightarrow>
               (case loadCaptcha E cl options st2 of
                  (Inl e, st3) \<Rightarrow> Some (Inl e, st3)
                | (Inr b64, st3) \<Rightarrow>
                    (case upload E cl st3 of
                       (Inl e, st4) \<Rightarrow> Some (Inl e, st4)
                     | (Inr decodedCaptcha, st4) \<Rightarrow>
                         poll E cl (polling cl) startedAt decodedCaptcha st4))))"

text \<open>
  The options of the three site challenges that the control flow reads; \<^verbatim>\<open>invisible\<close>,
  \<^verbatim>\<open>enterprise\<close> and \<^verbatim>\<open>action\<close> only go into the payload. A property left out is
  \<^verbatim>\<open>undefined\<close>.
\<close>

record site_options =
  googlekey :: jsval
  sitekey :: jsval
  pageurl :: jsval

text \<open>\<^verbatim>\<open>if (!v) this._throwError(message)\<close>.\<close>

definition require :: "TwoCaptchaClient \<Rightarrow> jsval \<Rightarrow> string \<Rightarrow> state \<Rightarrow> (error + bool) \<times> state" where
  "require cl v message st = (if falsy v then throwError cl message st else (Inr False, st))"

definition decodeRecaptchaV2 ::
  "env \<Rightarrow> TwoCaptchaClient \<Rightarrow> site_options \<Rightarrow> state \<Rightarrow>
     ((error + Captcha) \<times> state) option" where
  "decodeRecaptchaV2 E cl options st =
     (case Date_now E st of
        (startedAt, st1) \<Rightarrow>
          (case require cl (googlekey options) ''Missing googlekey parameter'' st1 of
             (Inl e, st2) \<Rightarrow> Some (Inl e, st2)
           | (Inr _, st2) \<Rightarrow>
               (case require cl (pageurl options) ''Missing pageurl parameter'' st2 of
                  (Inl e, st3) \<Rightarrow> Some (Inl e, st3)
                | (Inr _, st3) \<Rightarrow>
                    (case upload E cl st3 of
                       (Inl e, st4) \<Rightarrow> Some (Inl e, st4)
                     | (Inr decodedCaptcha, st4) \<Rightarrow>
                         poll E cl (max (polling cl) 10000) startedAt decodedCaptcha st4))))"

definition decodeRecaptchaV3 ::
  "env \<Rightarrow> TwoCaptchaClient \<Rightarrow> site_options \<Rightarrow> state \<Rightarrow>
     ((error + Captcha) \<times> state) option" where
  "decodeRecaptchaV3 E cl options st =
     (case Date_now E st of
        (startedAt, st1) \<Rightarrow>
          (case require cl (googlekey options) ''Missing googlekey parameter'' st1 of
             (Inl e, st2) \<Rightarrow> Some (Inl e, st2)
           | (Inr _, st2) \<Rightarrow>
               (case require cl (pageurl options) ''Missing pageurl parameter'' st2 of
                  (Inl e, st3) \<Rightarrow> Some (Inl e, st3)
                | (Inr _, st3) \<Rightarrow>
                    (case upload E cl st3 of
                       (Inl e, st4) \<Rightarrow> Some (Inl e, st4)
                     | (Inr decodedCaptcha, st4) \<Rightarrow>
                         poll E cl (max (polling cl) 10000) startedAt decodedCaptcha st4))))"

definition decodeHCaptcha ::
  "env \<Rightarrow> TwoCaptchaClient \<Rightarrow> site_options \<Rightarrow> state \<Rightarrow>
     ((error + Captcha) \<times> state) option" where
  "decodeHCaptcha E cl options st =
     (case Date_now E st of
        (startedAt, st1) \<Rightarrow>
          (case require cl (sitekey options) ''Missing sitekey parameter'' st1 of
             (Inl e, st2) \<Rightarrow> Some (Inl e, st2)
           | (Inr _, st2) \<Rightarrow>
               (case require cl (pageurl options) ''Missing pageurl parameter'' st2 of
                  (Inl e, st3) \<Rightarrow> Some (Inl e, st3)
                | (Inr _, st3) \<Rightarrow>
                    (case upload E cl st3 of
                       (Inl e, st4) \<Rightarrow> Some (Inl e, st4)
                     | (Inr decodedCaptcha, st4) \<Rightarrow>
                         poll E cl (max (polling cl) 10000) startedAt decodedCaptcha st4))))"

subsection \<open>The pace of a run, read off its trace\<close>

text \<open>
  What a method does after the reading of the clock that gives \<^verbatim>\<open>startedAt\<close> is paced
  at \<open>d\<close> when
  \<^item> every sleep lasts \<open>d\<close> and is followed at once by a reading of the clock;
  \<^item> a reading that lies more than \<^verbatim>\<open>timeout\<close> after \<^verbatim>\<open>startedAt\<close> ends the run, with
    the warning \<^verbatim>\<open>Captcha timeout\<close> when errors are logged and with nothing more when
    they are thrown;
  \<^item> any other reading is followed at once by a lookup (\<^verbatim>\<open>GET res\<close>);
  \<^item> the clock is read and a lookup is made nowhere else.
\<close>

fun paced :: "TwoCaptchaClient \<Rightarrow> int \<Rightarrow> int \<Rightarrow> event list \<Rightarrow> bool"
  and after_sleep :: "TwoCaptchaClient \<Rightarrow> int \<Rightarrow> int \<Rightarrow> event list \<Rightarrow> bool"
  and lookup_next :: "TwoCaptchaClient \<Rightarrow> int \<Rightarrow> int \<Rightarrow> event list \<Rightarrow> bool" where
  "paced cl d startedAt [] = True"
| "paced cl d startedAt (Sleep ms # es) = (ms = d \<and> after_sleep cl d startedAt es)"
| "paced cl d startedAt (Http a m # es) =
     ((a, m) \<noteq> (''res'', ''get'') \<and> paced cl d startedAt es)"
| "paced cl d startedAt (Warn w # es) = paced cl d startedAt es"
| "paced cl d startedAt (Now t # es) = False"
| "after_sleep cl d startedAt (Now t # es) =
     (if t - startedAt > timeout cl
      then es = (if throwErrors cl then [] else [Warn ''Captcha timeout''])
      else lookup_next cl d startedAt es)"
| "after_sleep cl d startedAt es = False"
| "lookup_next cl d startedAt (Http a m # es) =
     ((a, m) = (''res'', ''get'') \<and> paced cl d startedAt es)"
| "lookup_next cl d startedAt es = False"

text \<open>The events that are neither a sleep, nor a reading of the clock, nor a lookup.\<close>

fun quiet :: "event \<Rightarrow> bool" where
  "quiet (Warn w) = True"
| "quiet (Http a m) = ((a, m) \<noteq> (''res'', ''get''))"
| "quiet e = False"

section \<open>A sample environment\<close>

text \<open>
  The worked examples run against this table: its one entry is the message that
  \<^verbatim>\<open>_throwError\<close> singles out, under the code with which the service answers a lookup
  while the challenge is unsolved. Image data is already base64, and the clock and the
  replies of the service are given per example.
\<close>

definition errors_sample :: "string \<rightharpoonup> string" where
  "errors_sample = [''CAPCHA_NOT_READY'' \<mapsto> ''Your captcha is not solved yet.'']"

definition env_sample :: "(nat \<Rightarrow> int) \<Rightarrow> (nat \<Rightarrow> error + string) \<Rightarrow> env" where
  "env_sample ticks replies =
     \<lparr>errors = errors_sample, clock = ticks, transport = replies,
      toBase64 = (\<lambda>b. b), readFile = (\<lambda>p. Inr []), openDataURL = (\<lambda>u. Inr [])\<rparr>"

definition client_sample :: "bool \<Rightarrow> TwoCaptchaClient" where
  "client_sample b = \<lparr>key = Str ''k'', timeout = 60000, polling = 5000, throwErrors = b\<rparr>"

definition fresh :: state where
  "fresh = \<lparr>reads = 0, sent = 0, trace = []\<rparr>"

text \<open>
  The service accepts the upload, answers the first lookup with an empty text and the
  second with the solution.
\<close>

definition replies_sample :: "nat \<Rightarrow> error + string" where
  "replies_sample k =
     (if k = 0 then Inr ''OK|77'' else if k = 1 then Inr ''OK|'' else Inr ''OK|abc'')"

text \<open>The service accepts the upload and then keeps answering with an empty text.\<close>

definition replies_unsolved :: "nat \<Rightarrow> error + string" where
  "replies_unsolved k = (if k = 0 then Inr ''OK|77'' else Inr ''OK|'')"

definition image_sample :: image_options where
  "image_sample = \<lparr>base64 = Some ''aGk='', buffer = None, path = None, url = None\<rparr>"

definition site_sample :: site_options where
  "site_sample = \<lparr>googlekey = Str ''6Le-wvkS'', sitekey = Str ''a5f74b19'', pageurl = Str ''https://example.com''\<rparr>"





section \<open>Error surfacing\<close>

lemma includes_sublist: "includes_str s p \<longleftrightarrow> sublist p s"
  by (induction s) (auto simp: sublist_Cons_right)


lemma loadCaptcha_no_image:
  "\<not> nonempty (base64 options) \<Longrightarrow> buffer options = None \<Longrightarrow>
   \<not> nonempty (path options) \<Longrightarrow> \<not> nonempty (url options) \<Longrightarrow>
   loadCaptcha E cl options st =
     (if throwErrors cl then (Inl (Error ''No image data received''), st)
      else (Inr [], st\<lparr>trace := trace st @ [Warn ''No image data received'']\<rparr>))"
  by (simp add: loadCaptcha_def throwError_def)

lemma require_missing:
  "falsy v \<Longrightarrow> message \<noteq> ''Your captcha is not solved yet.'' \<Longrightarrow>
   require cl v message st =
     (if throwErrors cl then (Inl (Error message), st)
      else (Inr False, st\<lparr>trace := trace st @ [Warn message]\<rparr>))"
  by (simp add: require_def throwError_def)

text \<open>
  C10. For the message \<^verbatim>\<open>Your captcha is not solved yet.\<close>, \<^verbatim>\<open>_throwError\<close> returns
  \<^verbatim>\<open>false\<close> and neither throws nor logs, whatever \<^verbatim>\<open>throwErrors\<close> is. Hence a
  response body to which the error table gives this message passes \<^verbatim>\<open>_validateResponse\<close>
  with \<^verbatim>\<open>false\<close> and an unchanged log, and a lookup that receives it returns a Captcha:
  nothing is thrown and nothing is logged, in either mode.
\<close>

theorem not_solved_never_raises:
  "throwError cl ''Your captcha is not solved yet.'' st = (Inr False, st) \<and>
   (errors E body = Some ''Your captcha is not solved yet.'' \<longrightarrow>
      validateResponse E cl body st = (Inr False, st)) \<and>
   (transport E (sent st) = Inr body \<and> errors E body = Some ''Your captcha is not solved yet.'' \<longrightarrow>
      (\<exists>c. captcha E cl i st =
             (Inr c, st\<lparr>sent := Suc (sent st), trace := trace st @ [Http ''res'' ''get'']\<rparr>)))"
  by (simp add: throwError_def validateResponse_def captcha_def request_def Let_def)

theorem not_solved_never_raises_witness:
  "errors (env_sample (\<lambda>k. 0) (\<lambda>k. Inr ''CAPCHA_NOT_READY'')) ''CAPCHA_NOT_READY'' =
     Some ''Your captcha is not solved yet.'' \<and>
   transport (env_sample (\<lambda>k. 0) (\<lambda>k. Inr ''CAPCHA_NOT_READY'')) (sent fresh) =
     Inr ''CAPCHA_NOT_READY'' \<and>
   validateResponse (env_sample (\<lambda>k. 0) (\<lambda>k. Inr ''CAPCHA_NOT_READY'')) (client_sample True)
       ''CAPCHA_NOT_READY'' fresh = (Inr False, fresh) \<and>
   (\<exists>c. captcha (env_sample (\<lambda>k. 0) (\<lambda>k. Inr ''CAPCHA_NOT_READY'')) (client_sample True)
          (Str ''7'') fresh =
         (Inr c, fresh\<lparr>sent := Suc (sent fresh), trace := trace fresh @ [Http ''res'' ''get'']\<rparr>))"
  using not_solved_never_raises [of "client_sample True" fresh
          "env_sample (\<lambda>k. 0) (\<lambda>k. Inr ''CAPCHA_NOT_READY'')" "''CAPCHA_NOT_READY''" "Str ''7''"]
  by (simp add: env_sample_def errors_sample_def)

text \<open>
  C2, as the code has it. \<^verbatim>\<open>_validateResponse\<close> returns \<^verbatim>\<open>true\<close> exactly when the
  error table holds no non-empty message for the body (for a table without empty messages:
  when the body is not a key of it), the body is not empty and the body does not contain
  \<^verbatim>\<open>ERROR\<close>. Otherwise the message is the table's, or \<^verbatim>\<open>Unknown 2Captcha error: \<close>
  followed by the body, and it goes to \<^verbatim>\<open>_throwError\<close>: the message of an unsolved
  challenge gives \<^verbatim>\<open>false\<close> silently; any other message is thrown when
  \<^verbatim>\<open>throwErrors\<close> is true (and then nothing is returned), and is logged, with
  \<^verbatim>\<open>false\<close> returned, when it is false.
\<close>

theorem validateResponse_outcome:
  "validateResponse E cl body st =
     (if (errors E body = None \<or> errors E body = Some []) \<and> body \<noteq> [] \<and> \<not> sublist ''ERROR'' body
      then (Inr True, st)
      else
        (let m = (case errors E body of
                    None \<Rightarrow> ''Unknown 2Captcha error: '' @ body
                  | Some e \<Rightarrow> if e = [] then ''Unknown 2Captcha error: '' @ body else e)
         in if m = ''Your captcha is not solved yet.'' then (Inr False, st)
            else if throwErrors cl then (Inl (Error m), st)
            else (Inr False, st\<lparr>trace := trace st @ [Warn m]\<rparr>)))"
  by (auto simp: validateResponse_def throwError_def Let_def includes_sublist split: option.splits)

theorem validateResponse_outcome_witness:
  "validateResponse (env_sample (\<lambda>k. 0) (\<lambda>k. Inr [])) (client_sample False) ''OK|77'' fresh =
     (Inr True, fresh) \<and>
   validateResponse (env_sample (\<lambda>k. 0) (\<lambda>k. Inr [])) (client_sample False) ''ERROR_ZERO_BALANCE'' fresh =
     (Inr False, fresh\<lparr>trace := [Warn ''Unknown 2Captcha error: ERROR_ZERO_BALANCE'']\<rparr>) \<and>
   validateResponse (env_sample (\<lambda>k. 0) (\<lambda>k. Inr [])) (client_sample True) ''ERROR_ZERO_BALANCE'' fresh =
     (Inl (Error ''Unknown 2Captcha error: ERROR_ZERO_BALANCE''), fresh) \<and>
   validateResponse (env_sample (\<lambda>k. 0) (\<lambda>k. Inr [])) (client_sample True) ''CAPCHA_NOT_READY'' fresh =
     (Inr False, fresh)"
  using validateResponse_outcome [of "env_sample (\<lambda>k. 0) (\<lambda>k. Inr [])" "client_sample False" "''OK|77''" fresh]
        validateResponse_outcome [of "env_sample (\<lambda>k. 0) (\<lambda>k. Inr [])" "client_sample False" "''ERROR_ZERO_BALANCE''" fresh]
        validateResponse_outcome [of "env_sample (\<lambda>k. 0) (\<lambda>k. Inr [])" "client_sample True" "''ERROR_ZERO_BALANCE''" fresh]
        validateResponse_outcome [of "env_sample (\<lambda>k. 0) (\<lambda>k. Inr [])" "client_sample True" "''CAPCHA_NOT_READY''" fresh]
  by (simp add: env_sample_def errors_sample_def client_sample_def fresh_def sublist_Cons_right)

text \<open>
  C2, as the claim words it, has every body that is not accepted surface a message and
  return \<^verbatim>\<open>false\<close>. Where \<^verbatim>\<open>throwErrors\<close> is true the call on the empty body does
  not return \<^verbatim>\<open>false\<close>, it throws; and the body of an unsolved challenge surfaces
  nothing, neither thrown nor logged.
\<close>

theorem validateResponse_throws_counterexample:
  "validateResponse (env_sample (\<lambda>k. 0) (\<lambda>k. Inr [])) (client_sample True) [] fresh =
     (Inl (Error ''Unknown 2Captcha error: ''), fresh) \<and>
   validateResponse (env_sample (\<lambda>k. 0) (\<lambda>k. Inr [])) (client_sample False)
       ''CAPCHA_NOT_READY'' fresh = (Inr False, fresh)"
  by (simp add: validateResponse_def throwError_def env_sample_def errors_sample_def client_sample_def)

section \<open>The fields of a Captcha\<close>


lemma split_on_no_sep: "c \<notin> set s \<Longrightarrow> split_on c s = [s]"
  by (induction s) auto



text \<open>A response of one field has no second field: the destructuring gives \<^verbatim>\<open>undefined\<close>.\<close>

lemma element_second_absent: "c \<notin> set s \<Longrightarrow> element (split_limit c s 2) (Suc 0) = Undefined"
  by (simp add: split_on_no_sep split_limit_def element_def)



lemma captcha_result:
  assumes "captcha E cl i st = (Inr c, st')"
  shows "id_c c = i \<and>
         (\<exists>res. transport E (sent st) = Inr res \<and> apiResponse c = res \<and>
                text_c c = element (split_limit CHR ''|'' res 2) 1)"
  using assms
  by (auto simp: new_Captcha_def captcha_def request_def Let_def split: sum.splits prod.splits)




text \<open>
  C9. A client constructed from a key alone has a timeout of 60000 milliseconds and a
  polling interval of 5000 milliseconds (and logs errors instead of throwing them, so the
  constructor returns whatever the key is).
\<close>

theorem constructor_defaults:
  "\<exists>cl st'. new_TwoCaptchaClient k no_params st = (Inr cl, st') \<and>
            timeout cl = 60000 \<and> polling cl = 5000 \<and> throwErrors cl = False \<and> key cl = k"
  by (simp add: new_TwoCaptchaClient_def no_params_def throwError_def Let_def)

section \<open>The poll loop\<close>

subsection \<open>What a run adds to the trace\<close>

lemma throwError_trace:
  "throwError cl m st = (r, st') \<Longrightarrow> \<exists>ws. trace st' = trace st @ map Warn ws"
  by (auto simp: throwError_def split: if_splits intro: exI [of _ "[]"] exI [of _ "[m]"])

lemma validateResponse_trace:
  "validateResponse E cl b st = (r, st') \<Longrightarrow> \<exists>ws. trace st' = trace st @ map Warn ws"
  by (auto simp: validateResponse_def Let_def split: option.splits prod.splits sum.splits if_splits
           dest: throwError_trace intro: exI [of _ "[]"])

lemma request_trace:
  "request E cl a m st = (r, st') \<Longrightarrow> \<exists>ws. trace st' = trace st @ Http a m # map Warn ws"
  by (auto simp: request_def Let_def split: prod.splits sum.splits
           dest!: validateResponse_trace intro: exI [of _ "[]"])

lemma captcha_trace:
  "captcha E cl i st = (r, st') \<Longrightarrow> \<exists>ws. trace st' = trace st @ Http ''res'' ''get'' # map Warn ws"
  by (auto simp: captcha_def Let_def split: prod.splits sum.splits dest!: request_trace)

lemma paced_quiet: "list_all quiet pre \<Longrightarrow> paced cl d s (pre @ tr) = paced cl d s tr"
proof (induction pre)
  case Nil
  then show ?case by simp
next
  case (Cons e pre)
  then show ?case by (cases e) auto
qed

lemma quiet_warns: "list_all quiet (map Warn ws)"
  by (induction ws) simp_all

lemma paced_warns: "paced cl d s (map Warn ws @ tr) = paced cl d s tr"
  by (rule paced_quiet [OF quiet_warns])

lemma paced_warns_only: "paced cl d s (map Warn ws)"
  using paced_warns [of cl d s ws "[]"] by simp

lemma paced_round:
  "\<not> t - s > timeout cl \<Longrightarrow>
   paced cl d s ([Sleep d, Now t, Http ''res'' ''get''] @ map Warn ws @ tr) = paced cl d s tr"
  by (simp add: paced_warns)

lemma paced_timeout:
  "t - s > timeout cl \<Longrightarrow>
   paced cl d s ([Sleep d, Now t] @ (if throwErrors cl then [] else [Warn ''Captcha timeout'']))"
  by simp

lemma poll_paced_aux:
  assumes "poll E cl d startedAt c st = Some y"
  shows "\<exists>tr. trace (snd y) = trace st @ tr \<and> paced cl d startedAt tr"
  using assms
proof (induction E cl d startedAt c st y rule: poll.raw_induct [rotated 1, consumes 1])
  case (1 poll E cl d startedAt c st y)
  let ?t = "clock E (reads st)"
  let ?st1 = "st\<lparr>reads := Suc (reads st), trace := trace st @ [Sleep d, Now ?t]\<rparr>"
  have dn: "Date_now E (sleep d st) = (?t, ?st1)"
    by (simp add: Date_now_def sleep_def)
  show ?case
  proof (cases "text_c c = Str []")
    case False
    with 1(2) have "y = (Inr c, st)" by simp
    then show ?thesis by simp
  next
    case True
    show ?thesis
    proof (cases "timeout cl < ?t - startedAt")
      case late: True
      have "trace (snd y) =
              trace st @ [Sleep d, Now ?t] @ (if throwErrors cl then [] else [Warn ''Captcha timeout''])"
        using 1(2) True late dn by (cases "throwErrors cl") (auto simp: throwError_def)
      with paced_timeout [where t = ?t and s = startedAt and cl = cl and d = d] late show ?thesis
        by blast
    next
      case early: False
      obtain r2 st2 where ce: "captcha E cl (id_c c) ?st1 = (r2, st2)"
        by (cases "captcha E cl (id_c c) ?st1") auto
      from captcha_trace [OF ce] obtain ws
        where tr2: "trace st2 = trace st @ [Sleep d, Now ?t, Http ''res'' ''get''] @ map Warn ws"
        by auto
      show ?thesis
      proof (cases r2)
        case (Inl e)
        then have "snd y = st2"
          using 1(2) True early dn ce by auto
        with tr2 show ?thesis
          using paced_round [where t = ?t and s = startedAt and cl = cl and d = d and ws = ws and tr = "[]"] early
          by auto
      next
        case (Inr c')
        then have "poll E cl d startedAt c' st2 = Some y"
          using 1(2) True early dn ce by auto
        from 1(1) [OF this] obtain tr
          where "trace (snd y) = trace st2 @ tr" "paced cl d startedAt tr"
          by auto
        with tr2 show ?thesis
          using paced_round [where t = ?t and s = startedAt and cl = cl and d = d and ws = ws and tr = tr] early
          by auto
      qed
    qed
  qed
qed

lemma poll_paced:
  assumes "poll E cl d startedAt c st = Some (r, st')"
  shows "\<exists>tr. trace st' = trace st @ tr \<and> paced cl d startedAt tr"
  using poll_paced_aux [OF assms] by simp

lemma loadCaptcha_trace:
  "loadCaptcha E cl io st = (r, st') \<Longrightarrow> \<exists>ws. trace st' = trace st @ map Warn ws"
  by (auto simp: loadCaptcha_def split: if_splits sum.splits prod.splits
           dest: throwError_trace intro: exI [of _ "[]"])

lemma upload_trace:
  assumes "upload E cl st = (r, st')"
  shows "\<exists>ws. trace st' = trace st @ Http ''in'' ''post'' # map Warn ws"
proof -
  obtain r1 st1 where a: "request E cl ''in'' ''post'' st = (r1, st1)"
    by (cases "request E cl ''in'' ''post'' st") auto
  from request_trace [OF a] obtain ws1
    where t1: "trace st1 = trace st @ Http ''in'' ''post'' # map Warn ws1" by auto
  show ?thesis
  proof (cases r1)
    case (Inl e)
    with assms a have "st' = st1" by (simp add: upload_def)
    with t1 show ?thesis by auto
  next
    case (Inr res)
    obtain r2 st2 where b: "validateResponse E cl res st1 = (r2, st2)"
      by (cases "validateResponse E cl res st1") auto
    from validateResponse_trace [OF b] obtain ws2
      where t2: "trace st2 = trace st1 @ map Warn ws2" by auto
    from assms a b Inr have "st' = st2"
      by (cases r2) (simp_all add: upload_def)
    with t1 t2 have "trace st' = trace st @ Http ''in'' ''post'' # map Warn (ws1 @ ws2)"
      by simp
    then show ?thesis by blast
  qed
qed

lemma require_trace:
  "require cl v m st = (r, st') \<Longrightarrow> \<exists>ws. trace st' = trace st @ map Warn ws"
  by (auto simp: require_def split: if_splits dest: throwError_trace intro: exI [of _ "[]"])

lemma upload_poll_paced:
  assumes "(case upload E cl st of
              (Inl e, s) \<Rightarrow> Some (Inl e, s)
            | (Inr c, s) \<Rightarrow> poll E cl d t0 c s) = Some (r, st')"
  shows "\<exists>tr. trace st' = trace st @ tr \<and> paced cl d t0 tr"
proof -
  obtain r1 st1 where u: "upload E cl st = (r1, st1)"
    by (cases "upload E cl st") auto
  from upload_trace [OF u] obtain ws
    where t1: "trace st1 = trace st @ Http ''in'' ''post'' # map Warn ws" by auto
  show ?thesis
  proof (cases r1)
    case (Inl e)
    with assms u have "st' = st1" by simp
    with t1 show ?thesis by (simp add: paced_warns paced_warns_only)
  next
    case (Inr c)
    with assms u have "poll E cl d t0 c st1 = Some (r, st')" by simp
    from poll_paced [OF this] obtain tr where "trace st' = trace st1 @ tr" "paced cl d t0 tr"
      by auto
    with t1 show ?thesis by (simp add: paced_warns paced_warns_only)
  qed
qed

lemma checked_paced:
  assumes run: "(case chk of (Inl e, s) \<Rightarrow> Some (Inl e, s) | (Inr x, s) \<Rightarrow> k s) = Some (r, st')"
    and front: "\<exists>ws. trace (snd chk) = trace st @ map Warn ws"
    and rest: "k (snd chk) = Some (r, st') \<Longrightarrow>
               \<exists>tr. trace st' = trace (snd chk) @ tr \<and> paced cl d t0 tr"
  shows "\<exists>tr. trace st' = trace st @ tr \<and> paced cl d t0 tr"
proof (cases chk)
  case (Pair rc s)
  from front Pair obtain ws where f: "trace s = trace st @ map Warn ws" by auto
  show ?thesis
  proof (cases rc)
    case (Inl e)
    with run Pair have "st' = s" by simp
    with f show ?thesis by (simp add: paced_warns paced_warns_only)
  next
    case (Inr x)
    with run Pair have "k s = Some (r, st')" by simp
    with rest Pair obtain tr where "trace st' = trace s @ tr" "paced cl d t0 tr" by auto
    with f show ?thesis by (simp add: paced_warns paced_warns_only)
  qed
qed

lemma started_paced:
  assumes "\<exists>tr. trace st' = trace (snd (Date_now E st)) @ tr \<and> paced cl d (fst (Date_now E st)) tr"
  shows "\<exists>tr. trace st' = trace st @ Now (clock E (reads st)) # tr \<and>
              paced cl d (clock E (reads st)) tr"
  using assms by (auto simp: Date_now_def)

lemma decode_paced:
  assumes "decode E cl io st = Some (r, st')"
  shows "\<exists>tr. trace st' = trace st @ Now (clock E (reads st)) # tr \<and>
              paced cl (polling cl) (clock E (reads st)) tr"
proof (rule started_paced, rule checked_paced)
  let ?st1 = "snd (Date_now E st)"
  let ?chk = "if \<not> is_string (key cl) then throwError cl ''2Captcha key must be a string'' ?st1
              else (Inr False, ?st1)"
  let ?k = "\<lambda>s. case loadCaptcha E cl io s of
                   (Inl e, s3) \<Rightarrow> Some (Inl e, s3)
                 | (Inr b64, s3) \<Rightarrow>
                     (case upload E cl s3 of
                        (Inl e, s4) \<Rightarrow> Some (Inl e, s4)
                      | (Inr c, s4) \<Rightarrow> poll E cl (polling cl) (fst (Date_now E st)) c s4)"
  show "(case ?chk of (Inl e, s) \<Rightarrow> Some (Inl e, s) | (Inr x, s) \<Rightarrow> ?k s) = Some (r, st')"
    using assms by (simp add: decode_def case_prod_beta)
  show "\<exists>ws. trace (snd ?chk) = trace ?st1 @ map Warn ws"
    using throwError_trace [of cl "''2Captcha key must be a string''" ?st1]
    by (cases "throwError cl ''2Captcha key must be a string'' ?st1") (auto intro: exI [of _ "[]"])
  assume "?k (snd ?chk) = Some (r, st')"
  then show "\<exists>tr. trace st' = trace (snd ?chk) @ tr \<and>
                  paced cl (polling cl) (fst (Date_now E st)) tr"
  proof (rule checked_paced [where k = "\<lambda>s. case upload E cl s of
                        (Inl e, s4) \<Rightarrow> Some (Inl e, s4)
                      | (Inr c, s4) \<Rightarrow> poll E cl (polling cl) (fst (Date_now E st)) c s4"])
    show "\<exists>ws. trace (snd (loadCaptcha E cl io (snd ?chk))) = trace (snd ?chk) @ map Warn ws"
      using loadCaptcha_trace [of E cl io "snd ?chk"]
      by (cases "loadCaptcha E cl io (snd ?chk)") auto
  qed (rule upload_poll_paced)
qed

lemma site_paced:
  assumes "(case Date_now E st of
              (startedAt, st1) \<Rightarrow>
                (case require cl v1 m1 st1 of
                   (Inl e, st2) \<Rightarrow> Some (Inl e, st2)
                 | (Inr _, st2) \<Rightarrow>
                     (case require cl v2 m2 st2 of
                        (Inl e, st3) \<Rightarrow> Some (Inl e, st3)
                      | (Inr _, st3) \<Rightarrow>
                          (case upload E cl st3 of
                             (Inl e, st4) \<Rightarrow> Some (Inl e, st4)
                           | (Inr decodedCaptcha, st4) \<Rightarrow>
                               poll E cl d startedAt decodedCaptcha st4)))) = Some (r, st')"
  shows "\<exists>tr. trace st' = trace st @ Now (clock E (reads st)) # tr \<and>
              paced cl d (clock E (reads st)) tr"
proof (rule started_paced, rule checked_paced)
  let ?st1 = "snd (Date_now E st)"
  let ?chk = "require cl v1 m1 ?st1"
  let ?k2 = "\<lambda>s. case upload E cl s of
                    (Inl e, s4) \<Rightarrow> Some (Inl e, s4)
                  | (Inr c, s4) \<Rightarrow> poll E cl d (fst (Date_now E st)) c s4"
  let ?k = "\<lambda>s. case require cl v2 m2 s of
                   (Inl e, s3) \<Rightarrow> Some (Inl e, s3)
                 | (Inr x, s3) \<Rightarrow> ?k2 s3"
  show "(case ?chk of (Inl e, s) \<Rightarrow> Some (Inl e, s) | (Inr x, s) \<Rightarrow> ?k s) = Some (r, st')"
    using assms by (simp add: case_prod_beta)
  show "\<exists>ws. trace (snd ?chk) = trace ?st1 @ map Warn ws"
    using require_trace [of cl v1 m1 ?st1] by (cases ?chk) auto
  assume "?k (snd ?chk) = Some (r, st')"
  then show "\<exists>tr. trace st' = trace (snd ?chk) @ tr \<and> paced cl d (fst (Date_now E st)) tr"
  proof (rule checked_paced [where k = ?k2])
    show "\<exists>ws. trace (snd (require cl v2 m2 (snd ?chk))) = trace (snd ?chk) @ map Warn ws"
      using require_trace [of cl v2 m2 "snd ?chk"]
      by (cases "require cl v2 m2 (snd ?chk)") auto
  qed (rule upload_poll_paced)
qed

text \<open>
  C6. In every run of a \<^verbatim>\<open>decode\<close> method that returns, what follows the reading of
  \<^verbatim>\<open>startedAt\<close> is paced: each sleep lasts the same interval and is followed at once by a
  reading of the clock; the time elapsed since \<^verbatim>\<open>startedAt\<close> is compared with
  \<^verbatim>\<open>timeout\<close>, and the run ends with the timeout when it is larger and goes on with a
  lookup otherwise; and a lookup is made nowhere else, so two consecutive lookups are
  always separated by one sleep and one comparison. The interval is \<^verbatim>\<open>polling\<close> for
  \<^verbatim>\<open>decode\<close> and \<^verbatim>\<open>max(polling, 10000)\<close> for \<^verbatim>\<open>decodeRecaptchaV2\<close>,
  \<^verbatim>\<open>decodeRecaptchaV3\<close> and \<^verbatim>\<open>decodeHCaptcha\<close>.
\<close>

theorem sleeps_between_polls:
  "(decode E cl io st = Some (r, st') \<longrightarrow>
      (\<exists>tr. trace st' = trace st @ Now (clock E (reads st)) # tr \<and>
            paced cl (polling cl) (clock E (reads st)) tr)) \<and>
   (decodeRecaptchaV2 E cl so st = Some (r, st') \<longrightarrow>
      (\<exists>tr. trace st' = trace st @ Now (clock E (reads st)) # tr \<and>
            paced cl (max (polling cl) 10000) (clock E (reads st)) tr)) \<and>
   (decodeRecaptchaV3 E cl so st = Some (r, st') \<longrightarrow>
      (\<exists>tr. trace st' = trace st @ Now (clock E (reads st)) # tr \<and>
            paced cl (max (polling cl) 10000) (clock E (reads st)) tr)) \<and>
   (decodeHCaptcha E cl so st = Some (r, st') \<longrightarrow>
      (\<exists>tr. trace st' = trace st @ Now (clock E (reads st)) # tr \<and>
            paced cl (max (polling cl) 10000) (clock E (reads st)) tr))"
proof (intro conjI impI)
  assume "decode E cl io st = Some (r, st')"
  then show "\<exists>tr. trace st' = trace st @ Now (clock E (reads st)) # tr \<and>
                  paced cl (polling cl) (clock E (reads st)) tr"
    by (rule decode_paced)
next
  assume "decodeRecaptchaV2 E cl so st = Some (r, st')"
  then show "\<exists>tr. trace st' = trace st @ Now (clock E (reads st)) # tr \<and>
                  paced cl (max (polling cl) 10000) (clock E (reads st)) tr"
    unfolding decodeRecaptchaV2_def by (rule site_paced)
next
  assume "decodeRecaptchaV3 E cl so st = Some (r, st')"
  then show "\<exists>tr. trace st' = trace st @ Now (clock E (reads st)) # tr \<and>
                  paced cl (max (polling cl) 10000) (clock E (reads st)) tr"
    unfolding decodeRecaptchaV3_def by (rule site_paced)
next
  assume "decodeHCaptcha E cl so st = Some (r, st')"
  then show "\<exists>tr. trace st' = trace st @ Now (clock E (reads st)) # tr \<and>
                  paced cl (max (polling cl) 10000) (clock E (reads st)) tr"
    unfolding decodeHCaptcha_def by (rule site_paced)
qed

text \<open>
  Five runs: \<^verbatim>\<open>decode\<close> solved by the second lookup, \<^verbatim>\<open>decode\<close> running into the
  deadline with errors logged, \<^verbatim>\<open>decodeRecaptchaV2\<close> running into it with errors thrown,
  and the other two methods solved by the second lookup.
\<close>

theorem sleeps_between_polls_witness:
  "decode (env_sample (\<lambda>k. 5000 * int k) replies_sample) (client_sample False) image_sample fresh =
     Some (Inr \<lparr>id_c = Str ''77'', text_c = Str ''abc'', apiResponse = ''OK|abc''\<rparr>,
           \<lparr>reads = 3, sent = 3,
            trace = [Now 0, Http ''in'' ''post'', Sleep 5000, Now 5000, Http ''res'' ''get'',
                     Sleep 5000, Now 10000, Http ''res'' ''get'']\<rparr>) \<and>
   paced (client_sample False) (polling (client_sample False)) 0
     [Http ''in'' ''post'', Sleep 5000, Now 5000, Http ''res'' ''get'',
      Sleep 5000, Now 10000, Http ''res'' ''get''] \<and>
   decode (env_sample (\<lambda>k. 40000 * int k) replies_unsolved) (client_sample False) image_sample fresh =
     Some (Inr \<lparr>id_c = Str ''77'', text_c = Str [], apiResponse = ''OK|''\<rparr>,
           \<lparr>reads = 3, sent = 2,
            trace = [Now 0, Http ''in'' ''post'', Sleep 5000, Now 40000, Http ''res'' ''get'',
                     Sleep 5000, Now 80000, Warn ''Captcha timeout'']\<rparr>) \<and>
   paced (client_sample False) (polling (client_sample False)) 0
     [Http ''in'' ''post'', Sleep 5000, Now 40000, Http ''res'' ''get'',
      Sleep 5000, Now 80000, Warn ''Captcha timeout''] \<and>
   decodeRecaptchaV2 (env_sample (\<lambda>k. 40000 * int k) replies_unsolved) (client_sample True)
       site_sample fresh =
     Some (Inl (Error ''Captcha timeout''),
           \<lparr>reads = 3, sent = 2,
            trace = [Now 0, Http ''in'' ''post'', Sleep 10000, Now 40000, Http ''res'' ''get'',
                     Sleep 10000, Now 80000]\<rparr>) \<and>
   paced (client_sample True) (max (polling (client_sample True)) 10000) 0
     [Http ''in'' ''post'', Sleep 10000, Now 40000, Http ''res'' ''get'',
      Sleep 10000, Now 80000] \<and>
   decodeRecaptchaV3 (env_sample (\<lambda>k. 5000 * int k) replies_sample) (client_sample False)
       site_sample fresh =
     Some (Inr \<lparr>id_c = Str ''77'', text_c = Str ''abc'', apiResponse = ''OK|abc''\<rparr>,
           \<lparr>reads = 3, sent = 3,
            trace = [Now 0, Http ''in'' ''post'', Sleep 10000, Now 5000, Http ''res'' ''get'',
                     Sleep 10000, Now 10000, Http ''res'' ''get'']\<rparr>) \<and>
   decodeHCaptcha (env_sample (\<lambda>k. 5000 * int k) replies_sample) (client_sample False)
       site_sample fresh =
     Some (Inr \<lparr>id_c = Str ''77'', text_c = Str ''abc'', apiResponse = ''OK|abc''\<rparr>,
           \<lparr>reads = 3, sent = 3,
            trace = [Now 0, Http ''in'' ''post'', Sleep 10000, Now 5000, Http ''res'' ''get'',
                     Sleep 10000, Now 10000, Http ''res'' ''get'']\<rparr>) \<and>
   paced (client_sample False) (max (polling (client_sample False)) 10000) 0
     [Http ''in'' ''post'', Sleep 10000, Now 5000, Http ''res'' ''get'',
      Sleep 10000, Now 10000, Http ''res'' ''get'']"
proof -
  let ?E = "env_sample (\<lambda>k. 5000 * int k) replies_sample"
  let ?L = "env_sample (\<lambda>k. 40000 * int k) replies_unsolved"
  let ?c = "\<lparr>id_c = Str ''77'', text_c = Str ''abc'', apiResponse = ''OK|abc''\<rparr>"
  let ?u = "\<lparr>id_c = Str ''77'', text_c = Str [], apiResponse = ''OK|''\<rparr>"
  let ?s1 = "\<lparr>reads = 3, sent = 3,
            trace = [Now 0, Http ''in'' ''post'', Sleep 5000, Now 5000, Http ''res'' ''get'',
                     Sleep 5000, Now 10000, Http ''res'' ''get'']\<rparr>"
  let ?s2 = "\<lparr>reads = 3, sent = 2,
            trace = [Now 0, Http ''in'' ''post'', Sleep 5000, Now 40000, Http ''res'' ''get'',
                     Sleep 5000, Now 80000, Warn ''Captcha timeout'']\<rparr>"
  let ?s3 = "\<lparr>reads = 3, sent = 2,
            trace = [Now 0, Http ''in'' ''post'', Sleep 10000, Now 40000, Http ''res'' ''get'',
                     Sleep 10000, Now 80000]\<rparr>"
  let ?s4 = "\<lparr>reads = 3, sent = 3,
            trace = [Now 0, Http ''in'' ''post'', Sleep 10000, Now 5000, Http ''res'' ''get'',
                     Sleep 10000, Now 10000, Http ''res'' ''get'']\<rparr>"
  have r1: "decode ?E (client_sample False) image_sample fresh = Some (Inr ?c, ?s1)"
    by code_simp
  have r2: "decode ?L (client_sample False) image_sample fresh = Some (Inr ?u, ?s2)"
    by code_simp
  have r3: "decodeRecaptchaV2 ?L (client_sample True) site_sample fresh =
              Some (Inl (Error ''Captcha timeout''), ?s3)"
    by code_simp
  have r4: "decodeRecaptchaV3 ?E (client_sample False) site_sample fresh = Some (Inr ?c, ?s4)"
    by code_simp
  have r5: "decodeHCaptcha ?E (client_sample False) site_sample fresh = Some (Inr ?c, ?s4)"
    by code_simp
  have p1: "\<exists>tr. trace ?s1 = trace fresh @ Now (clock ?E (reads fresh)) # tr \<and>
                 paced (client_sample False) (polling (client_sample False)) (clock ?E (reads fresh)) tr"
    using sleeps_between_polls [of ?E "client_sample False" image_sample fresh "Inr ?c" ?s1] r1
    by blast
  have p2: "\<exists>tr. trace ?s2 = trace fresh @ Now (clock ?L (reads fresh)) # tr \<and>
                 paced (client_sample False) (polling (client_sample False)) (clock ?L (reads fresh)) tr"
    using sleeps_between_polls [of ?L "client_sample False" image_sample fresh "Inr ?u" ?s2] r2
    by blast
  have p3: "\<exists>tr. trace ?s3 = trace fresh @ Now (clock ?L (reads fresh)) # tr \<and>
                 paced (client_sample True) (max (polling (client_sample True)) 10000)
                   (clock ?L (reads fresh)) tr"
    using sleeps_between_polls [of ?L "client_sample True" image_sample fresh
            "Inl (Error ''Captcha timeout'')" ?s3 site_sample] r3
    by blast
  have p4: "\<exists>tr. trace ?s4 = trace fresh @ Now (clock ?E (reads fresh)) # tr \<and>
                 paced (client_sample False) (max (polling (client_sample False)) 10000)
                   (clock ?E (reads fresh)) tr"
    using sleeps_between_polls [of ?E "client_sample False" image_sample fresh "Inr ?c" ?s4
            site_sample] r4 r5
    by blast
  have q1: "paced (client_sample False) (polling (client_sample False)) 0
     [Http ''in'' ''post'', Sleep 5000, Now 5000, Http ''res'' ''get'',
      Sleep 5000, Now 10000, Http ''res'' ''get'']"
    using p1 by (simp add: fresh_def env_sample_def client_sample_def)
  have q2: "paced (client_sample False) (polling (client_sample False)) 0
     [Http ''in'' ''post'', Sleep 5000, Now 40000, Http ''res'' ''get'',
      Sleep 5000, Now 80000, Warn ''Captcha timeout'']"
    using p2 by (simp add: fresh_def env_sample_def client_sample_def)
  have q3: "paced (client_sample True) (max (polling (client_sample True)) 10000) 0
     [Http ''in'' ''post'', Sleep 10000, Now 40000, Http ''res'' ''get'',
      Sleep 10000, Now 80000]"
    using p3 by (simp add: fresh_def env_sample_def client_sample_def)
  have q4: "paced (client_sample False) (max (polling (client_sample False)) 10000) 0
     [Http ''in'' ''post'', Sleep 10000, Now 5000, Http ''res'' ''get'',
      Sleep 10000, Now 10000, Http ''res'' ''get'']"
    using p4 by (simp add: fresh_def env_sample_def client_sample_def)
  show ?thesis
    by (intro conjI r1 r2 r3 r4 r5 q1 q2 q3 q4)
qed

subsection \<open>The two exits of the loop, and termination\<close>

text \<open>
  The loop returns at once a Captcha whose text is not \<^verbatim>\<open>''\<close>; with the text
  \<^verbatim>\<open>''\<close> and the deadline passed it surfaces the timeout and, unless that throws,
  returns the Captcha as it is.
\<close>

lemma poll_ready:
  "text_c c \<noteq> Str [] \<Longrightarrow> poll E cl d startedAt c st = Some (Inr c, st)"
  by (subst poll.simps) simp


lemma throwError_reads:
  "throwError cl m st = (r, st') \<Longrightarrow> reads st' = reads st \<and> sent st' = sent st"
  by (auto simp: throwError_def split: if_splits)

lemma validateResponse_reads:
  "validateResponse E cl b st = (r, st') \<Longrightarrow> reads st' = reads st \<and> sent st' = sent st"
  by (auto simp: validateResponse_def Let_def split: option.splits prod.splits sum.splits if_splits
           dest: throwError_reads)

lemma captcha_reads: "captcha E cl i st = (r, st') \<Longrightarrow> reads st' = reads st"
  by (auto simp: captcha_def request_def Let_def split: prod.splits sum.splits
           dest: validateResponse_reads)

text \<open>
  Each round reads the clock once. Whatever the service replies, the loop returns at the
  latest with the first reading that lies more than \<^verbatim>\<open>timeout\<close> after the start.
\<close>

lemma poll_returns:
  assumes "reads st \<le> k" and "clock E k - startedAt > timeout cl"
  shows "\<exists>r. poll E cl d startedAt c st = Some r"
  using assms
proof (induction "k - reads st" arbitrary: st c)
  case 0
  then have "reads st = k" by simp
  with 0 show ?case
    by (subst poll.simps) (auto simp: Date_now_def sleep_def throwError_def split: prod.splits sum.splits)
next
  case (Suc n)
  show ?case
  proof (cases "text_c c = Str [] \<and> \<not> clock E (reads st) - startedAt > timeout cl")
    case False
    then show ?thesis
      by (subst poll.simps) (auto simp: Date_now_def sleep_def throwError_def split: prod.splits sum.splits)
  next
    case True
    let ?st1 = "snd (Date_now E (sleep d st))"
    obtain r st2 where c: "captcha E cl (id_c c) ?st1 = (r, st2)"
      by (cases "captcha E cl (id_c c) ?st1") auto
    have "reads st2 = Suc (reads st)"
      using captcha_reads [OF c] by (simp add: Date_now_def sleep_def)
    with Suc have ih: "\<And>c'. \<exists>r. poll E cl d startedAt c' st2 = Some r"
      by simp
    show ?thesis
    proof (cases r)
      case (Inl e)
      with True c show ?thesis
        by (subst poll.simps) (simp add: Date_now_def sleep_def)
    next
      case (Inr c')
      with True c ih [of c'] show ?thesis
        by (subst poll.simps) (simp add: Date_now_def sleep_def)
    qed
  qed
qed

section \<open>Where errors are detected\<close>




















section \<open>The text after a lookup that finds the challenge unsolved\<close>

text \<open>
  A reply of a single field, such as \<^verbatim>\<open>CAPCHA_NOT_READY\<close>, leaves the text
  \<^verbatim>\<open>undefined\<close>, not empty.
\<close>

lemma captcha_single_field:
  assumes "captcha E cl i st = (Inr c, st')"
    and "transport E (sent st) = Inr res" and "CHR ''|'' \<notin> set res"
  shows "text_c c = Undefined"
  using captcha_result [OF assms(1)] assms(2,3) by (auto simp: element_second_absent)

text \<open>
  C1 at a lookup that the service answers with \<^verbatim>\<open>CAPCHA_NOT_READY\<close>: the claim has the
  text stay \<^verbatim>\<open>''\<close>; the Captcha returned has the text \<^verbatim>\<open>undefined\<close>.
\<close>

theorem lookup_not_ready_text:
  "captcha (env_sample (\<lambda>k. 5000 * int k) (\<lambda>k. Inr ''CAPCHA_NOT_READY'')) (client_sample False)
     (Str ''77'') fresh =
   (Inr \<lparr>id_c = Str ''77'', text_c = Undefined, apiResponse = ''CAPCHA_NOT_READY''\<rparr>,
    \<lparr>reads = 0, sent = 1, trace = [Http ''res'' ''get'']\<rparr>)"
  by (simp add: captcha_def request_def validateResponse_def throwError_def env_sample_def
        errors_sample_def fresh_def new_Captcha_def split_limit_def element_def Let_def)

text \<open>
  C3 at an upload answered \<^verbatim>\<open>OK|77\<close> and a first lookup answered
  \<^verbatim>\<open>CAPCHA_NOT_READY\<close>, 5000 ms after the start and with a timeout of 60000 ms: the claim
  has the loop go on until the challenge is solved or the deadline has passed; the loop
  returns the unsolved Captcha after this one lookup, and no timeout is surfaced.
\<close>

theorem decode_returns_unsolved:
  "decode (env_sample (\<lambda>k. 5000 * int k)
             (\<lambda>k. if k = 0 then Inr ''OK|77'' else Inr ''CAPCHA_NOT_READY''))
     (client_sample False) image_sample fresh =
   Some (Inr \<lparr>id_c = Str ''77'', text_c = Undefined, apiResponse = ''CAPCHA_NOT_READY''\<rparr>,
         \<lparr>reads = 2, sent = 2,
          trace = [Now 0, Http ''in'' ''post'', Sleep 5000, Now 5000, Http ''res'' ''get'']\<rparr>)"
  by code_simp

section \<open>The accessors of a Captcha\<close>

subsection \<open>The greedy quantifier\<close>

lemma first_some_map_None: "(\<And>x. x \<in> set xs \<Longrightarrow> f x = None) \<Longrightarrow> first_some (map f xs) = None"
  by (induction xs) auto

lemma greedy_lengths: "0 < n \<Longrightarrow> rev [1..<Suc n] = n # rev [1..<n]"
  by simp

lemma take_length_takeWhile: "take (length (takeWhile P s)) s = takeWhile P s"
  by (rule takeWhile_eq_take [symmetric])

lemma drop_length_takeWhile: "drop (length (takeWhile P s)) s = dropWhile P s"
  by (rule dropWhile_eq_drop [symmetric])

lemma rx_at_Digits_greedy:
  assumes "takeWhile is_digit s \<noteq> []"
  shows "rx_at (Digits # p) s =
     first_some
       (map (\<lambda>n. case rx_at p (drop n s) of
                    None \<Rightarrow> None
                  | Some (groups, r) \<Rightarrow> Some (take n s # groups, r))
            (length (takeWhile is_digit s) # rev [1..<length (takeWhile is_digit s)]))"
proof -
  from assms have "0 < length (takeWhile is_digit s)" by simp
  then have "rev [1..<Suc (length (takeWhile is_digit s))] =
             length (takeWhile is_digit s) # rev [1..<length (takeWhile is_digit s)]"
    by (rule greedy_lengths)
  then show ?thesis
    by (simp only: rx_at.simps)
qed

lemma rx_at_Digits_end:
  "rx_at [Digits] s =
     (if takeWhile is_digit s = [] then None
      else Some ([takeWhile is_digit s], dropWhile is_digit s))"
proof (cases "takeWhile is_digit s = []")
  case True
  then show ?thesis by simp
next
  case False
  have "rx_at [Digits] s =
        Some ([take (length (takeWhile is_digit s)) s], drop (length (takeWhile is_digit s)) s)"
    using rx_at_Digits_greedy [OF False, of "[]"] by (simp only: list.map rx_at.simps option.case prod.case first_some.simps)
  with False show ?thesis
    by (simp only: take_length_takeWhile drop_length_takeWhile if_False)
qed

lemma digit_inside:
  assumes "k < length (takeWhile is_digit s)"
  shows "\<exists>x t. drop k s = x # t \<and> is_digit x"
proof -
  from assms have k: "k < length s"
    using length_takeWhile_le [of is_digit s] by simp
  have "takeWhile is_digit s ! k = s ! k"
    using assms by (rule takeWhile_nth)
  moreover have "takeWhile is_digit s ! k \<in> set (takeWhile is_digit s)"
    using assms by simp
  ultimately have "is_digit (s ! k)"
    by (metis set_takeWhileD)
  with k show ?thesis
    by (metis Cons_nth_drop_Suc)
qed

lemma rx_at_Digits_Lit:
  assumes "\<not> is_digit c"
  shows "rx_at (Digits # Lit c # p) s =
     (if takeWhile is_digit s = [] then None
      else (case rx_at (Lit c # p) (dropWhile is_digit s) of
              None \<Rightarrow> None
            | Some (groups, r) \<Rightarrow> Some (takeWhile is_digit s # groups, r)))"
proof (cases "takeWhile is_digit s = []")
  case True
  then show ?thesis by simp
next
  case False
  let ?n = "length (takeWhile is_digit s)"
  let ?f = "\<lambda>n. case rx_at (Lit c # p) (drop n s) of
                    None \<Rightarrow> None
                  | Some (groups, r) \<Rightarrow> Some (take n s # groups, r)"
  have shorter: "?f k = None" if "k \<in> set (rev [1..<?n])" for k
  proof -
    from that have "k < ?n" by simp
    from digit_inside [OF this] obtain x t where "drop k s = x # t" "is_digit x" by blast
    with assms show ?thesis by auto
  qed
  have "rx_at (Digits # Lit c # p) s = first_some (?f ?n # map ?f (rev [1..<?n]))"
    using rx_at_Digits_greedy [OF False, of "Lit c # p"] by (simp only: list.map)
  also have "\<dots> = ?f ?n"
    using first_some_map_None [of "rev [1..<?n]" ?f, OF shorter]
    by (cases "?f ?n") simp_all
  finally show ?thesis using False
    by (simp only: take_length_takeWhile drop_length_takeWhile if_False)
qed


subsection \<open>The coordinates pattern\<close>

lemma rx_at_Lit2:
  "rx_at (Lit a # Lit b # p) t = (if take 2 t = [a, b] then rx_at p (drop 2 t) else None)"
proof (cases t)
  case Nil
  then show ?thesis by simp
next
  case (Cons x t1)
  then show ?thesis by (cases t1) (auto simp: numeral_2_eq_2)
qed

lemma rx_at_Lit3:
  "rx_at (Lit a # Lit b # Lit c # p) t =
     (if take 3 t = [a, b, c] then rx_at p (drop 3 t) else None)"
proof (cases t)
  case Nil
  then show ?thesis by simp
next
  case (Cons x t1)
  show ?thesis
  proof (cases t1)
    case Nil
    with Cons show ?thesis by (simp add: numeral_3_eq_3)
  next
    case (Cons y t2)
    with \<open>t = x # t1\<close> show ?thesis by (cases t2) (auto simp: numeral_3_eq_3)
  qed
qed

lemma not_digit_comma: "\<not> is_digit CHR '',''"
  by (simp add: is_digit_def)

lemma rx_coordinates_at:
  "rx_at rx_coordinates t =
     (case xy_prefix t of
        None \<Rightarrow> None
      | Some (dx, dy) \<Rightarrow> Some ([dx, dy], drop (5 + length dx + length dy) t))"
proof -
  let ?dx = "takeWhile is_digit (drop 2 t)"
  let ?u = "drop (2 + length ?dx) t"
  let ?dy = "takeWhile is_digit (drop 3 ?u)"
  have u: "dropWhile is_digit (drop 2 t) = ?u"
    by (simp add: dropWhile_eq_drop add.commute)
  have r: "dropWhile is_digit (drop 3 ?u) = drop (5 + length ?dx + length ?dy) t"
    by (simp add: dropWhile_eq_drop add.commute add.left_commute)
  have "rx_at rx_coordinates t =
          (if take 2 t = ''x='' then
             (if ?dx = [] then None
              else (case rx_at [Lit CHR '','', Lit CHR ''y'', Lit CHR ''='', Digits] ?u of
                      None \<Rightarrow> None
                    | Some (groups, r) \<Rightarrow> Some (?dx # groups, r)))
           else None)"
    unfolding rx_coordinates_def
    by (simp only: rx_at_Lit2 rx_at_Digits_Lit [OF not_digit_comma] u)
  also have "rx_at [Lit CHR '','', Lit CHR ''y'', Lit CHR ''='', Digits] ?u =
          (if take 3 ?u = '',y='' then
             (if ?dy = [] then None else Some ([?dy], drop (5 + length ?dx + length ?dy) t))
           else None)"
    by (simp only: rx_at_Lit3 rx_at_Digits_end r)
  finally show ?thesis
    by (simp add: xy_prefix_def Let_def)
qed


lemma takeWhile_stop:
  assumes "\<forall>c\<in>set d. P c" and "r = [] \<or> \<not> P (hd r)"
  shows "takeWhile P (d @ r) = d" and "dropWhile P (d @ r) = r"
proof -
  from assms(2) have "takeWhile P r = []" "dropWhile P r = r"
    by (cases r; simp)+
  with assms(1) show "takeWhile P (d @ r) = d" and "dropWhile P (d @ r) = r"
    by simp_all
qed

lemma xy_prefix_intro:
  assumes "dx \<noteq> []" and "dy \<noteq> []"
    and "\<forall>c\<in>set dx. is_digit c" and "\<forall>c\<in>set dy. is_digit c"
    and "r = [] \<or> \<not> is_digit (hd r)"
  shows "xy_prefix (''x='' @ dx @ '',y='' @ dy @ r) = Some (dx, dy)"
proof -
  let ?t = "''x='' @ dx @ '',y='' @ dy @ r"
  have dx: "takeWhile is_digit (drop 2 ?t) = dx"
    using takeWhile_stop(1) [of dx is_digit "'',y='' @ dy @ r"] assms(3) not_digit_comma
    by simp
  have u: "drop (2 + length dx) ?t = '',y='' @ dy @ r"
    by simp
  have dy: "takeWhile is_digit (drop 3 ('',y='' @ dy @ r)) = dy"
    using takeWhile_stop(1) [of dy is_digit r] assms(4,5) by simp
  show ?thesis
    unfolding xy_prefix_def Let_def dx u dy using assms(1,2) by simp
qed

lemma xy_prefix_elim:
  assumes "xy_prefix t = Some (dx, dy)"
  shows "dx \<noteq> [] \<and> dy \<noteq> [] \<and> (\<forall>c\<in>set dx. is_digit c) \<and> (\<forall>c\<in>set dy. is_digit c) \<and>
         (\<exists>r. t = ''x='' @ dx @ '',y='' @ dy @ r \<and> (r = [] \<or> \<not> is_digit (hd r)) \<and>
              r = drop (5 + length dx + length dy) t)"
proof -
  let ?u = "drop (2 + length dx) t"
  let ?r = "dropWhile is_digit (drop 3 ?u)"
  from assms have dx: "dx = takeWhile is_digit (drop 2 t)"
    by (simp add: xy_prefix_def Let_def split: if_splits)
  with assms have dy: "dy = takeWhile is_digit (drop 3 ?u)"
    by (simp add: xy_prefix_def Let_def split: if_splits)
  from assms dx dy have cond: "take 2 t = ''x=''" "dx \<noteq> []" "take 3 ?u = '',y=''" "dy \<noteq> []"
    by (simp_all add: xy_prefix_def Let_def split: if_splits)
  have a: "t = take 2 t @ drop 2 t"
    by (rule append_take_drop_id [symmetric])
  have b: "drop 2 t = dx @ dropWhile is_digit (drop 2 t)"
    unfolding dx by (rule takeWhile_dropWhile_id [symmetric])
  have c: "dropWhile is_digit (drop 2 t) = ?u"
    unfolding dx by (simp add: dropWhile_eq_drop add.commute)
  have d: "?u = take 3 ?u @ drop 3 ?u"
    by (rule append_take_drop_id [symmetric])
  have e: "drop 3 ?u = dy @ ?r"
    unfolding dy by (rule takeWhile_dropWhile_id [symmetric])
  have "t = ''x='' @ dx @ dropWhile is_digit (drop 2 t)"
    using a b cond(1) by simp
  also have "dropWhile is_digit (drop 2 t) = '',y='' @ dy @ ?r"
    using c d e cond(3) by simp
  finally have t: "t = ''x='' @ dx @ '',y='' @ dy @ ?r" .
  have r: "?r = [] \<or> \<not> is_digit (hd ?r)"
    using hd_dropWhile [of is_digit "drop 3 ?u"] by blast
  have "?r = drop (length dy) (drop 3 ?u)"
    unfolding dy by (simp add: dropWhile_eq_drop)
  then have r': "?r = drop (5 + length dx + length dy) t"
    by (simp add: add.commute add.left_commute)
  have "\<forall>c\<in>set dx. is_digit c" "\<forall>c\<in>set dy. is_digit c"
    unfolding dx dy by (auto dest: set_takeWhileD)
  with cond t r r' show ?thesis by blast
qed

text \<open>
  What \<open>xy_prefix\<close> finds is an occurrence of the form, and the longest one that starts
  the text.
\<close>

lemma xy_prefix_iff:
  "xy_prefix t = Some (dx, dy) \<longleftrightarrow>
     dx \<noteq> [] \<and> dy \<noteq> [] \<and> (\<forall>c\<in>set dx. is_digit c) \<and> (\<forall>c\<in>set dy. is_digit c) \<and>
     (\<exists>r. t = ''x='' @ dx @ '',y='' @ dy @ r \<and> (r = [] \<or> \<not> is_digit (hd r)))"
proof
  assume "xy_prefix t = Some (dx, dy)"
  from xy_prefix_elim [OF this]
  show "dx \<noteq> [] \<and> dy \<noteq> [] \<and> (\<forall>c\<in>set dx. is_digit c) \<and> (\<forall>c\<in>set dy. is_digit c) \<and>
     (\<exists>r. t = ''x='' @ dx @ '',y='' @ dy @ r \<and> (r = [] \<or> \<not> is_digit (hd r)))"
    by blast
next
  assume a: "dx \<noteq> [] \<and> dy \<noteq> [] \<and> (\<forall>c\<in>set dx. is_digit c) \<and> (\<forall>c\<in>set dy. is_digit c) \<and>
     (\<exists>r. t = ''x='' @ dx @ '',y='' @ dy @ r \<and> (r = [] \<or> \<not> is_digit (hd r)))"
  then obtain r where "t = ''x='' @ dx @ '',y='' @ dy @ r" "r = [] \<or> \<not> is_digit (hd r)"
    by blast
  with a xy_prefix_intro [of dx dy r] show "xy_prefix t = Some (dx, dy)"
    by blast
qed

lemma xy_prefix_other: "c \<noteq> CHR ''x'' \<Longrightarrow> xy_prefix (c # t) = None"
  by (simp add: xy_prefix_def Let_def numeral_2_eq_2)


lemma coordinates_spec_Nil: "coordinates_spec Number [] = []"
  by (simp add: coordinates_spec_def)

lemma coordinates_spec_Cons:
  "coordinates_spec Number (c # t) =
     (case xy_prefix (c # t) of
        None \<Rightarrow> []
      | Some (dx, dy) \<Rightarrow> [[Number dx, Number dy]]) @ coordinates_spec Number t"
proof -
  have "[0..<length (c # t)] = 0 # map Suc [0..<length t]"
    by (simp add: upt_conv_Cons map_Suc_upt del: upt_Suc)
  then show ?thesis
    by (simp add: coordinates_spec_def comp_def del: upt_Suc)
qed

lemma coordinates_spec_skip:
  "\<forall>c\<in>set m. c \<noteq> CHR ''x'' \<Longrightarrow> coordinates_spec Number (m @ r) = coordinates_spec Number r"
  by (induction m) (simp_all add: coordinates_spec_Cons xy_prefix_other)

lemma digit_not_x: "is_digit c \<Longrightarrow> c \<noteq> CHR ''x''"
  by (auto simp: is_digit_def)

lemma coordinateParser_match:
  assumes "dx \<noteq> []" and "dy \<noteq> []"
    and "\<forall>c\<in>set dx. is_digit c" and "\<forall>c\<in>set dy. is_digit c"
  shows "coordinateParser Number (''x='' @ dx @ '',y='' @ dy) = [Number dx, Number dy]"
proof -
  have "xy_prefix (''x='' @ dx @ '',y='' @ dy @ []) = Some (dx, dy)"
    using assms by (intro xy_prefix_intro) simp_all
  then have "rx_at rx_coordinates (''x='' @ dx @ '',y='' @ dy) =
             Some ([dx, dy], drop (5 + length dx + length dy) (''x='' @ dx @ '',y='' @ dy))"
    by (simp add: rx_coordinates_at)
  then have "exec rx_coordinates (CHR ''x'' # ''='' @ dx @ '',y='' @ dy) = Some [dx, dy]"
    by (simp only: exec.simps append_Cons append_Nil option.case prod.case)
  then show ?thesis
    by (simp add: coordinateParser_def)
qed

lemma coordinates_scan:
  "map (coordinateParser Number) (map fst (match_all rx_coordinates t)) = coordinates_spec Number t"
proof (induction "length t" arbitrary: t rule: less_induct)
  case less
  show ?case
  proof (cases t)
    case Nil
    have "xy_prefix [] = None" by (simp add: xy_prefix_def)
    then have "match_all rx_coordinates [] = []"
      by (subst match_all.simps) (simp add: rx_coordinates_at)
    with Nil show ?thesis
      by (simp add: coordinates_spec_Nil)
  next
    case (Cons c t')
    show ?thesis
    proof (cases "xy_prefix t")
      case None
      then have "match_all rx_coordinates t = match_all rx_coordinates t'"
        using Cons by (subst match_all.simps) (simp add: rx_coordinates_at)
      moreover have "coordinates_spec Number t = coordinates_spec Number t'"
        using None Cons by (simp add: coordinates_spec_Cons)
      moreover have "length t' < length t" using Cons by simp
      ultimately show ?thesis using less by simp
    next
      case (Some q)
      obtain dx dy where q: "q = (dx, dy)" by (cases q)
      let ?m = "''x='' @ dx @ '',y='' @ dy"
      from xy_prefix_elim [of t dx dy] Some q
      obtain r where ne: "dx \<noteq> []" "dy \<noteq> []"
        and dig: "\<forall>c\<in>set dx. is_digit c" "\<forall>c\<in>set dy. is_digit c"
        and t0: "t = ''x='' @ dx @ '',y='' @ dy @ r"
        and r: "drop (5 + length dx + length dy) t = r"
        by blast
      from t0 have t: "t = ?m @ r" by simp
      have len: "length t - length r = length ?m"
        by (subst t) simp
      have shorter: "length r < length t"
        by (subst t) simp
      have "take (length ?m) t = ?m"
        using t by (metis append_eq_conv_conj)
      with len have m: "take (length t - length r) t = ?m"
        by simp
      have "rx_at rx_coordinates t = Some ([dx, dy], drop (5 + length dx + length dy) t)"
        using Some q by (simp add: rx_coordinates_at)
      then have "rx_at rx_coordinates t = Some ([dx, dy], r)"
        by (simp only: r)
      then have "match_all rx_coordinates t = (?m, [dx, dy]) # match_all rx_coordinates r"
        using shorter m by (subst match_all.simps) simp
      moreover have "coordinateParser Number ?m = [Number dx, Number dy]"
        using ne dig by (rule coordinateParser_match)
      moreover have "coordinates_spec Number t = [Number dx, Number dy] # coordinates_spec Number r"
      proof -
        have t': "t' = (''='' @ dx @ '',y='' @ dy) @ r"
          using t Cons by simp
        have "\<forall>c\<in>set (''='' @ dx @ '',y='' @ dy). c \<noteq> CHR ''x''"
          using dig by (auto dest: digit_not_x)
        then have "coordinates_spec Number ((''='' @ dx @ '',y='' @ dy) @ r) =
                   coordinates_spec Number r"
          by (rule coordinates_spec_skip)
        then have "coordinates_spec Number t' = coordinates_spec Number r"
          by (simp only: t')
        with Some q Cons show ?thesis
          by (simp add: coordinates_spec_Cons)
      qed
      ultimately show ?thesis
        using less [OF shorter] by simp
    qed
  qed
qed

text \<open>
  C4. For a text that is a string, \<^verbatim>\<open>coordinates()\<close> returns one pair for each
  occurrence of \<^verbatim>\<open>x=<digits>,y=<digits>\<close> in the text, in the order of the positions at
  which they start, the pair being what \<^verbatim>\<open>Number\<close> makes of the two digit groups; it
  is the empty list when there is no occurrence. This holds whatever \<^verbatim>\<open>Number\<close> returns.
\<close>

theorem coordinates_occurrences:
  "text_c c = Str s \<Longrightarrow> coordinates Number c = Inr (coordinates_spec Number s)"
  using coordinates_scan [of Number s]
  by (cases "match_all rx_coordinates s") (simp_all add: coordinates_def match_g_def)

theorem coordinates_occurrences_witness:
  "text_c \<lparr>id_c = Str ''77'', text_c = Str ''coordinates:x=39,y=59;x=252,y=72'', apiResponse = []\<rparr> =
     Str ''coordinates:x=39,y=59;x=252,y=72'' \<and>
   coordinates decimal
     \<lparr>id_c = Str ''77'', text_c = Str ''coordinates:x=39,y=59;x=252,y=72'', apiResponse = []\<rparr> =
     Inr [[39, 59], [252, 72]] \<and>
   text_c \<lparr>id_c = Str ''77'', text_c = Str ''OK'', apiResponse = []\<rparr> = Str ''OK'' \<and>
   coordinates decimal \<lparr>id_c = Str ''77'', text_c = Str ''OK'', apiResponse = []\<rparr> = Inr []"
proof -
  have "coordinates_spec decimal ''coordinates:x=39,y=59;x=252,y=72'' = [[39, 59], [252, 72]]"
    by code_simp
  moreover have "coordinates_spec decimal ''OK'' = []"
    by code_simp
  ultimately show ?thesis
    using coordinates_occurrences
            [of "\<lparr>id_c = Str ''77'', text_c = Str ''coordinates:x=39,y=59;x=252,y=72'', apiResponse = []\<rparr>"
                "''coordinates:x=39,y=59;x=252,y=72''" decimal]
          coordinates_occurrences
            [of "\<lparr>id_c = Str ''77'', text_c = Str ''OK'', apiResponse = []\<rparr>" "''OK''" decimal]
    by simp
qed

subsection \<open>The digits pattern and the removal of \<^verbatim>\<open>click:\<close>\<close>

lemma runs_after_digits: "runs_after True t = runs_after False (dropWhile is_digit t)"
  by (induction t) simp_all

lemma digit_runs_from:
  "map (\<lambda>i. takeWhile is_digit (drop i (pre @ t)))
       (filter (\<lambda>i. is_digit ((pre @ t) ! i) \<and> (i = 0 \<or> \<not> is_digit ((pre @ t) ! (i - 1))))
               [length pre..<length pre + length t]) =
   runs_after (pre \<noteq> [] \<and> is_digit (last pre)) t"
proof (induction t arbitrary: pre)
  case Nil
  then show ?case by simp
next
  case (Cons c t)
  have range: "[length pre..<length pre + length (c # t)] =
               length pre # [length (pre @ [c])..<length (pre @ [c]) + length t]"
    by (simp add: upt_conv_Cons del: upt_Suc)
  have before: "(length pre = 0 \<or> \<not> is_digit ((pre @ c # t) ! (length pre - 1))) \<longleftrightarrow>
                \<not> (pre \<noteq> [] \<and> is_digit (last pre))"
  proof (cases "pre = []")
    case True
    then show ?thesis by simp
  next
    case False
    then have "(pre @ c # t) ! (length pre - 1) = last pre"
      by (simp add: nth_append last_conv_nth)
    with False show ?thesis by simp
  qed
  have ih: "map (\<lambda>i. takeWhile is_digit (drop i (pre @ c # t)))
       (filter (\<lambda>i. is_digit ((pre @ c # t) ! i) \<and> (i = 0 \<or> \<not> is_digit ((pre @ c # t) ! (i - 1))))
               [length (pre @ [c])..<length (pre @ [c]) + length t]) =
     runs_after (is_digit c) t"
    using Cons [of "pre @ [c]"] by simp
  show ?case
    unfolding range using before ih by (simp del: upt_Suc)
qed

lemma digit_runs_runs_after: "digit_runs s = runs_after False s"
  using digit_runs_from [of "[]" s] by (simp add: digit_runs_def)

lemma digits_scan: "map fst (match_all rx_digits t) = runs_after False t"
proof (induction "length t" arbitrary: t rule: less_induct)
  case less
  show ?case
  proof (cases t)
    case Nil
    then show ?thesis
      by (subst match_all.simps) (simp add: rx_digits_def rx_at_Digits_end)
  next
    case (Cons c t')
    show ?thesis
    proof (cases "is_digit c")
      case False
      then have "match_all rx_digits t = match_all rx_digits t'"
        using Cons by (subst match_all.simps) (simp add: rx_digits_def rx_at_Digits_end)
      moreover have "length t' < length t" using Cons by simp
      ultimately show ?thesis using less False Cons by simp
    next
      case True
      let ?d = "takeWhile is_digit t"
      let ?r = "dropWhile is_digit t"
      have t: "t = ?d @ ?r" by simp
      have d: "?d \<noteq> []" using True Cons by simp
      then have shorter: "length ?r < length t"
        by (subst (2) t) (simp del: takeWhile_dropWhile_id)
      have "take (length ?d) t = ?d"
        by (rule takeWhile_eq_take [symmetric])
      moreover have "length t - length ?r = length ?d"
        by (subst t) (simp del: takeWhile_dropWhile_id)
      ultimately have m: "take (length t - length ?r) t = ?d" by simp
      have "rx_at rx_digits t = Some ([?d], ?r)"
        using d by (simp add: rx_digits_def rx_at_Digits_end del: rx_at.simps)
      then have "match_all rx_digits t = (?d, [?d]) # match_all rx_digits ?r"
        using shorter m by (subst match_all.simps) simp
      moreover have "runs_after False t = ?d # runs_after False ?r"
        using True Cons by (simp add: runs_after_digits)
      ultimately show ?thesis
        using less [OF shorter] by simp
    qed
  qed
qed

lemma replace_first_absent:
  "pat \<noteq> [] \<Longrightarrow> \<not> sublist pat s \<Longrightarrow> replace_first pat rep s = s"
  by (induction s) (auto simp: sublist_Cons_right)

lemma replace_first_occurrence:
  assumes "pat \<noteq> []" and "\<not> sublist pat (a @ butlast pat)"
  shows "replace_first pat rep (a @ pat @ b) = a @ rep @ b"
  using assms(2)
proof (induction a)
  case Nil
  from assms(1) obtain x xs where "pat = x # xs" by (cases pat) auto
  then show ?case by simp
next
  case (Cons x a)
  have "\<not> prefix pat (x # a @ pat @ b)"
  proof
    assume p: "prefix pat (x # a @ pat @ b)"
    have "butlast pat @ [last pat] = pat"
      using assms(1) by simp
    then have "pat @ b = butlast pat @ last pat # b"
      by (metis append.assoc append_Cons append_Nil)
    then have "x # a @ pat @ b = ((x # a) @ butlast pat) @ last pat # b"
      by simp
    then have "prefix ((x # a) @ butlast pat) (x # a @ pat @ b)"
      by (metis prefixI)
    moreover have "length pat \<le> length ((x # a) @ butlast pat)"
      by simp
    ultimately have "prefix pat ((x # a) @ butlast pat)"
      using p by (metis prefix_length_prefix)
    then have "sublist pat ((x # a) @ butlast pat)"
      by (rule prefix_imp_sublist)
    with Cons.prems show False by simp
  qed
  moreover have "\<not> sublist pat (a @ butlast pat)"
    using Cons.prems by (auto simp: sublist_Cons_right)
  ultimately show ?case
    using Cons.IH by simp
qed


lemma indexes_runs:
  "text_c c = Str s \<Longrightarrow>
   indexes Number c = Inr (map Number (digit_runs (replace_first ''click:'' [] s)))"
  using digits_scan [of "replace_first ''click:'' [] s"]
  by (cases "match_all rx_digits (replace_first ''click:'' [] s)")
     (simp_all add: indexes_def match_g_def digit_runs_runs_after)

text \<open>
  C5, as the code has it. For a text that is a string, \<^verbatim>\<open>indexes()\<close> returns the
  maximal runs of decimal digits, each converted by \<^verbatim>\<open>Number\<close> and in order (whatever
  \<^verbatim>\<open>Number\<close> returns), of the text from which the
  first occurrence of \<^verbatim>\<open>click:\<close> has been removed, wherever in the text that occurrence
  is: of the text itself when \<^verbatim>\<open>click:\<close> does not occur in it, and of \<open>a @ b\<close> when the
  text is \<open>a\<close>, \<^verbatim>\<open>click:\<close>, \<open>b\<close> with no occurrence starting inside \<open>a\<close>. It is the
  empty list when no digit is left.
\<close>

theorem indexes_digit_runs:
  "text_c c = Str s \<Longrightarrow>
   (\<not> sublist ''click:'' s \<longrightarrow> indexes Number c = Inr (map Number (digit_runs s))) \<and>
   (\<forall>a b. s = a @ ''click:'' @ b \<and> \<not> sublist ''click:'' (a @ ''click'') \<longrightarrow>
          indexes Number c = Inr (map Number (digit_runs (a @ b))))"
proof (intro conjI impI allI)
  assume "text_c c = Str s" and "\<not> sublist ''click:'' s"
  then show "indexes Number c = Inr (map Number (digit_runs s))"
    by (simp add: indexes_runs replace_first_absent)
next
  fix a b
  assume c: "text_c c = Str s"
    and s: "s = a @ ''click:'' @ b \<and> \<not> sublist ''click:'' (a @ ''click'')"
  have "replace_first ''click:'' [] (a @ ''click:'' @ b) = a @ [] @ b"
    using s by (intro replace_first_occurrence) simp_all
  with c s show "indexes Number c = Inr (map Number (digit_runs (a @ b)))"
    by (simp add: indexes_runs)
qed

theorem indexes_digit_runs_witness:
  "text_c \<lparr>id_c = Str ''77'', text_c = Str ''1/3/15'', apiResponse = []\<rparr> = Str ''1/3/15'' \<and>
   \<not> sublist ''click:'' ''1/3/15'' \<and>
   indexes decimal \<lparr>id_c = Str ''77'', text_c = Str ''1/3/15'', apiResponse = []\<rparr> =
     Inr [1, 3, 15] \<and>
   text_c \<lparr>id_c = Str ''77'', text_c = Str ''click:1/3/15'', apiResponse = []\<rparr> = Str ''click:1/3/15'' \<and>
   ''click:1/3/15'' = [] @ ''click:'' @ ''1/3/15'' \<and> \<not> sublist ''click:'' ([] @ ''click'') \<and>
   indexes decimal \<lparr>id_c = Str ''77'', text_c = Str ''click:1/3/15'', apiResponse = []\<rparr> =
     Inr [1, 3, 15]"
proof -
  let ?c1 = "\<lparr>id_c = Str ''77'', text_c = Str ''1/3/15'', apiResponse = []\<rparr>"
  let ?c2 = "\<lparr>id_c = Str ''77'', text_c = Str ''click:1/3/15'', apiResponse = []\<rparr>"
  have t1: "text_c ?c1 = Str ''1/3/15''" by simp
  have t2: "text_c ?c2 = Str ''click:1/3/15''" by simp
  have h1: "\<not> sublist ''click:'' ''1/3/15''" by code_simp
  have h2: "''click:1/3/15'' = [] @ ''click:'' @ ''1/3/15'' \<and> \<not> sublist ''click:'' ([] @ ''click'')"
    by code_simp
  have v: "map decimal (digit_runs ''1/3/15'') = [1, 3, 15]" by code_simp
  have i1: "indexes decimal ?c1 = Inr (map decimal (digit_runs ''1/3/15''))"
    using indexes_digit_runs [OF t1, THEN conjunct1] h1 by (rule mp)
  have "indexes decimal ?c2 = Inr (map decimal (digit_runs ([] @ ''1/3/15'')))"
    using h2 by (rule indexes_digit_runs [OF t2, THEN conjunct2, rule_format])
  then have i2: "indexes decimal ?c2 = Inr (map decimal (digit_runs ''1/3/15''))"
    by (simp only: append_Nil)
  show ?thesis
    by (intro conjI t1 t2 h1 h2 [THEN conjunct1] h2 [THEN conjunct2]) (simp_all only: i1 i2 v)
qed

text \<open>
  C5, as the claim words it, removes \<^verbatim>\<open>click:\<close> only where it leads the text. On
  \<^verbatim>\<open>1click:2\<close> the code joins the two digits into the one run \<^verbatim>\<open>12\<close>, where the
  claim has the two runs \<^verbatim>\<open>1\<close> and \<^verbatim>\<open>2\<close>.
\<close>

theorem indexes_leading_prefix_counterexample:
  "indexes decimal \<lparr>id_c = Str ''77'', text_c = Str ''1click:2'', apiResponse = []\<rparr> = Inr [12] \<and>
   map decimal (digit_runs (strip_leading ''click:'' ''1click:2'')) = [1, 2]"
  by code_simp

end
